theory Spec2Isabelle
  imports Main "HOL-Library.Sublist" "HOL-Library.Multiset"
begin

text \<open>
  A shallow embedding of the front end of the unit-test generator: the upload component,
  the three revisions of the test-generation component and the page that holds them,
  followed by a model of the response parser and reconciler. Each React component is a
  record of its state; a handler is a function from state to state, and what a handler
  passes to a callback or posts to the backend is appended to a log in the state.
\<close>

section \<open>FileUpload component\<close>

text \<open>
  The upload component keeps a list of \<open>UploadedFile\<close> objects in React state and
  reports every new list to its parent through \<open>onFilesChange\<close>.
  \<^verbatim>\<open>
  interface UploadedFile {
    id: string; name: string; size: number;
    type: 'source' | 'header'; content?: string;
  }
  \<close>
  The optional \<open>content\<close> is an \<open>option\<close>: \<open>None\<close> is the absent field.
\<close>

datatype file_type = Source | Header

record UploadedFile =
  file_id :: string
  name :: string
  fsize :: nat
  ftype :: file_type
  content :: "string option"

text \<open>A browser \<open>File\<close> as \<open>processFiles\<close> reads it: name, size and text.\<close>

record BrowserFile =
  bf_name :: string
  bf_size :: nat
  bf_text :: string

text \<open>
  The component state: the \<open>files\<close> state variable, and the log of the lists passed to
  the \<open>onFilesChange\<close> callback, oldest first.
\<close>

record FileUpload =
  files :: "UploadedFile list"
  reported :: "UploadedFile list list"

text \<open>
  JavaScript's \<open>String.prototype.endsWith\<close>: the last \<open>length t\<close> characters of
  \<open>s\<close> are \<open>t\<close>.
\<close>

definition endsWith :: "string \<Rightarrow> string \<Rightarrow> bool" where
  "endsWith s t = (length t \<le> length s \<and> drop (length s - length t) s = t)"

text \<open>\<^verbatim>\<open>const fileType = file.name.endsWith('.h') ? 'header' : 'source';\<close>\<close>

definition fileType :: "string \<Rightarrow> file_type" where
  "fileType n = (if endsWith n ''.h'' then Header else Source)"

text \<open>
  The loop body of \<open>processFiles\<close>: one \<open>UploadedFile\<close> per browser file. The id
  comes from \<open>Math.random().toString(36).substr(2, 9)\<close>; the model takes the ids as
  an input, \<open>rnd k\<close> for the \<open>k\<close>-th file of the call, with nothing assumed about
  them.
\<close>

definition newFile :: "string \<Rightarrow> BrowserFile \<Rightarrow> UploadedFile" where
  "newFile i f =
     \<lparr>file_id = i, name = bf_name f, fsize = bf_size f,
      ftype = fileType (bf_name f), content = Some (bf_text f)\<rparr>"

fun newFiles :: "(nat \<Rightarrow> string) \<Rightarrow> nat \<Rightarrow> BrowserFile list \<Rightarrow> UploadedFile list" where
  "newFiles rnd k [] = []"
| "newFiles rnd k (f # fs) = newFile (rnd k) f # newFiles rnd (Suc k) fs"

text \<open>
  \<^verbatim>\<open>
  const updatedFiles = [...files, ...newFiles];
  setFiles(updatedFiles);
  onFilesChange(updatedFiles);
  \<close>
  \<open>processFiles\<close> appends the new files to the \<open>files\<close> value its closure captured,
  stores the result and reports it. It reads the files' texts with \<open>await\<close> before
  that, so the state it updates (\<open>st\<close>) may be later than the one its closure saw.
  \<open>handleFileInput\<close> is recreated at every render and captures the list of the render
  in which the files were chosen (\<open>rendered\<close>); \<open>handleDrop\<close> is memoised by
  \<open>useCallback\<close> with an empty dependency array, so its closure keeps the list of the
  first render, which is empty.
\<close>

definition processFiles ::
  "UploadedFile list \<Rightarrow> (nat \<Rightarrow> string) \<Rightarrow> BrowserFile list \<Rightarrow> FileUpload \<Rightarrow> FileUpload" where
  "processFiles captured rnd fileList st =
     (let updatedFiles = captured @ newFiles rnd 0 fileList
      in st\<lparr>files := updatedFiles, reported := reported st @ [updatedFiles]\<rparr>)"

definition handleFileInput ::
  "FileUpload \<Rightarrow> (nat \<Rightarrow> string) \<Rightarrow> BrowserFile list \<Rightarrow> FileUpload \<Rightarrow> FileUpload" where
  "handleFileInput rendered rnd selectedFiles st =
     processFiles (files rendered) rnd selectedFiles st"

definition handleDrop ::
  "(nat \<Rightarrow> string) \<Rightarrow> BrowserFile list \<Rightarrow> FileUpload \<Rightarrow> FileUpload" where
  "handleDrop rnd droppedFiles st = processFiles [] rnd droppedFiles st"

text \<open>
  \<^verbatim>\<open>
  const removeFile = (id: string) => {
    const updatedFiles = files.filter(file => file.id !== id);
    setFiles(updatedFiles);
    onFilesChange(updatedFiles);
  };
  \<close>
\<close>

definition removeFile :: "string \<Rightarrow> FileUpload \<Rightarrow> FileUpload" where
  "removeFile i st =
     (let updatedFiles = filter (\<lambda>file. file_id file \<noteq> i) (files st)
      in st\<lparr>files := updatedFiles, reported := reported st @ [updatedFiles]\<rparr>)"


section \<open>TestGeneration component\<close>

text \<open>
  The repository holds three revisions of the component: one that simulates the workflow
  in four steps (\<open>unnamed/part_002\<close>), one that simulates it in two steps
  (\<open>src/components/TestGeneration.tsx\<close>) and one that calls the backend
  (\<open>unnamed/part_003\<close>). The status type of the first has all six values; the two
  others drop \<open>running\<close>.
  \<^verbatim>\<open>
  type TestStatus = 'idle' | 'generating' | 'parsing' | 'running' | 'completed' | 'failed';
  \<close>
\<close>

datatype TestStatus = Idle | Generating | Parsing | Running | Completed | Failed

text \<open>
  The Generate button, the same expression in the three revisions:
  \<^verbatim>\<open>disabled={status !== 'idle' && status !== 'completed' && status !== 'failed'}\<close>
\<close>

definition generate_disabled :: "TestStatus \<Rightarrow> bool" where
  "generate_disabled s = (s \<noteq> Idle \<and> s \<noteq> Completed \<and> s \<noteq> Failed)"

text \<open>
  The React state of the component (\<open>status\<close>, \<open>progress\<close>, \<open>currentStep\<close>,
  \<open>results\<close>) with two logs of its effects: the values passed to the
  \<open>onTestGenerated\<close> callback and the messages written by \<open>console.error\<close>. The type
  of the results differs between the revisions and is a parameter.
\<close>

record 'r TestGeneration =
  status :: TestStatus
  progress :: nat
  currentStep :: string
  results :: "'r option"
  generated :: "'r list"
  console :: "string list"

subsection \<open>JavaScript strings\<close>

text \<open>
  \<open>String(n)\<close> for a natural number below \<open>10^21\<close>: its decimal digits, most
  significant first, no leading zero.
\<close>

definition digit_char :: "nat \<Rightarrow> char" where
  "digit_char d = char_of (48 + d)"

fun String_nat :: "nat \<Rightarrow> string" where
  "String_nat n =
     (if n < 10 then [digit_char n] else String_nat (n div 10) @ [digit_char (n mod 10)])"

declare String_nat.simps [simp del]

text \<open>
  \<open>s.padStart(n, pad)\<close>: \<open>s\<close> itself when it is long enough or the pad is empty,
  otherwise the pad repeated and cut to the missing length, then \<open>s\<close>.
\<close>

definition padStart :: "nat \<Rightarrow> string \<Rightarrow> string \<Rightarrow> string" where
  "padStart n pad s =
     (if n \<le> length s \<or> pad = [] then s
      else take (n - length s) (concat (replicate (n - length s) pad)) @ s)"

text \<open>
  \<open>x || d\<close> on an optional string: \<open>undefined\<close>, \<open>null\<close> and the empty string are
  falsy.
\<close>

definition or_default :: "string option \<Rightarrow> string \<Rightarrow> string" where
  "or_default x d = (case x of None \<Rightarrow> d | Some s \<Rightarrow> if s = [] then d else s)"

text \<open>Reading a decimal numeral back, used to compare test IDs by their number.\<close>

definition digit_val :: "char \<Rightarrow> nat" where
  "digit_val c = of_char c - 48"

definition nat_of_digits :: "string \<Rightarrow> nat" where
  "nat_of_digits s = foldl (\<lambda>a c. 10 * a + digit_val c) 0 s"

subsection \<open>The revision that calls the backend\<close>

text \<open>
  A test case as the backend's JSON carries it. The component declares it \<open>any\<close> and
  reads each field through \<open>||\<close>, so every field is optional.
\<close>

record TestCaseRow =
  row_id :: "string option"
  row_function_name :: "string option"
  row_description :: "string option"
  row_expected_result :: "string option"
  row_test_code :: "string option"

text \<open>
  \<open>response.data\<close>. A field is \<open>None\<close> when it is absent or falsy; \<open>test_cases\<close>,
  when present, is an array.
\<close>

record TestData =
  test_cases :: "TestCaseRow list option"
  test_runner_script :: "string option"
  makefile_content :: "string option"
  csv_content :: "string option"

text \<open>
  The parsed body of the reply. \<open>resp_data = None\<close> is a falsy \<open>data\<close> (absent,
  \<open>null\<close>, \<open>false\<close>, \<open>0\<close>, the empty string).
\<close>

record ApiResponse =
  resp_status :: "string option"
  resp_data :: "TestData option"
  resp_message :: "string option"

text \<open>
  What \<open>fetch\<close> settles with: a rejection (network failure), or an HTTP response with
  its \<open>ok\<close> flag, its \<open>statusText\<close> and its body; the body is \<open>None\<close> when
  \<open>response.json()\<close> rejects or yields \<open>null\<close>, so that reading it throws.
\<close>

datatype FetchResult =
  NetworkError string
| HttpResponse bool string "ApiResponse option"

text \<open>One \<open>{filename, content, size}\<close> object of the request body.\<close>

record FileData =
  filename :: string
  fd_content :: string
  fd_size :: nat

record TestScripts =
  ts_test_runner_script :: string
  ts_makefile_content :: string
  ts_test_cases :: "TestCaseRow list"

text \<open>
  The state of this revision adds \<open>excelData\<close> and \<open>testScripts\<close>, and the log of
  the request bodies posted to \<open>/generate_tests\<close>.
\<close>

record ApiTestGeneration = "TestData TestGeneration" +
  excelData :: "TestCaseRow list option"
  testScripts :: "TestScripts option"
  requests :: "FileData list list"

text \<open>
  \<^verbatim>\<open>
  const fileData = files.map(file => ({
    filename: file.name, content: file.content || '', size: file.size }));
  \<close>
\<close>

definition fileData :: "UploadedFile list \<Rightarrow> FileData list" where
  "fileData fs =
     map (\<lambda>file. \<lparr>filename = name file, fd_content = or_default (content file) [],
                   fd_size = fsize file\<rparr>) fs"

text \<open>
  \<open>generateTestsAPI\<close> after the fetch has settled: it throws on a response that is
  not \<open>ok\<close>, otherwise returns the parsed body. \<open>Inl\<close> carries the error message.
\<close>

definition generateTestsAPI :: "FetchResult \<Rightarrow> string + ApiResponse" where
  "generateTestsAPI res =
     (case res of
        NetworkError m \<Rightarrow> Inl m
      | HttpResponse ok statusText body \<Rightarrow>
          if \<not> ok then Inl (''Test generation failed: '' @ statusText)
          else (case body of None \<Rightarrow> Inl ''invalid JSON'' | Some r \<Rightarrow> Inr r))"

text \<open>
  \<open>generateTests\<close> in two parts, split at its only \<open>await\<close>. The first part runs
  when the button is clicked; it returns whether a request was sent.
\<close>

definition generateTests_start ::
  "UploadedFile list \<Rightarrow> ApiTestGeneration \<Rightarrow> ApiTestGeneration \<times> bool" where
  "generateTests_start fs st =
     (if fs = [] then
        (st\<lparr>console := console st @ [''No files available for processing'']\<rparr>, False)
      else
        (st\<lparr>status := Generating, progress := 0, currentStep := ''Uploading files...'',
            progress := 25,
            currentStep := ''Generating Tests with Gemini AI'', progress := 50,
            requests := requests st @ [fileData fs]\<rparr>, True))"

text \<open>The \<open>catch\<close> block.\<close>

definition generation_failed :: "string \<Rightarrow> ApiTestGeneration \<Rightarrow> ApiTestGeneration" where
  "generation_failed msg st =
     st\<lparr>status := Failed, currentStep := ''Generation failed'',
        console := console st @ [''Test generation failed: '' @ msg]\<rparr>"

text \<open>
  The second part: everything after the \<open>await\<close>, once the fetch has settled. The
  value of \<open>response.status === 'success' && response.data\<close> is the data when both
  hold, and falsy otherwise.
\<close>

definition generateTests_resume :: "FetchResult \<Rightarrow> ApiTestGeneration \<Rightarrow> ApiTestGeneration" where
  "generateTests_resume res st =
     (case generateTestsAPI res of
        Inl msg \<Rightarrow> generation_failed msg st
      | Inr response \<Rightarrow>
          (case (if resp_status response = Some ''success'' then resp_data response else None) of
             Some testData \<Rightarrow>
               st\<lparr>currentStep := ''Test Generation Complete'', status := Parsing,
                  progress := 100,
                  results := Some testData,
                  excelData := Some (case test_cases testData of None \<Rightarrow> [] | Some tcs \<Rightarrow> tcs),
                  testScripts := Some
                    \<lparr>ts_test_runner_script = or_default (test_runner_script testData) [],
                     ts_makefile_content = or_default (makefile_content testData) [],
                     ts_test_cases = (case test_cases testData of None \<Rightarrow> [] | Some tcs \<Rightarrow> tcs)\<rparr>,
                  status := Completed,
                  generated := generated st @ [testData]\<rparr>
           | None \<Rightarrow>
               generation_failed (or_default (resp_message response) ''Failed to generate tests'') st))"

definition generateTests ::
  "UploadedFile list \<Rightarrow> FetchResult \<Rightarrow> ApiTestGeneration \<Rightarrow> ApiTestGeneration" where
  "generateTests fs res st =
     (case generateTests_start fs st of
        (st', False) \<Rightarrow> st'
      | (st', True) \<Rightarrow> generateTests_resume res st')"

text \<open>
  The reply counts as a success carrying data exactly when the condition
  \<open>response.status === 'success' && response.data\<close> is reached and holds.
\<close>

definition success_with_data :: "FetchResult \<Rightarrow> TestData option" where
  "success_with_data res =
     (case generateTestsAPI res of
        Inl msg \<Rightarrow> None
      | Inr response \<Rightarrow>
          if resp_status response = Some ''success'' then resp_data response else None)"

text \<open>
  One row of the "Excel Test Report" table:
  \<^verbatim>\<open>
  {excelData?.map((row: any, index: number) => (
     <td>TC_{String(index + 1).padStart(3, '0')}</td>
     <td>{row.function_name || 'N/A'}</td>
     <td>{row.description || 'N/A'}</td>
     <td>{row.expected_result || 'N/A'}</td>
     <td><Badge>Pending</Badge></td>
  \<close>
\<close>

record ExcelRow =
  cell_id :: string
  cell_function :: string
  cell_description :: string
  cell_expected :: string
  cell_status :: string

definition test_id :: "nat \<Rightarrow> string" where
  "test_id index = ''TC_'' @ padStart 3 ''0'' (String_nat (index + 1))"

definition excelRow :: "nat \<times> TestCaseRow \<Rightarrow> ExcelRow" where
  "excelRow p =
     (case p of (index, row) \<Rightarrow>
        \<lparr>cell_id = test_id index,
         cell_function = or_default (row_function_name row) ''N/A'',
         cell_description = or_default (row_description row) ''N/A'',
         cell_expected = or_default (row_expected_result row) ''N/A'',
         cell_status = ''Pending''\<rparr>)"

definition excelRows :: "TestCaseRow list \<Rightarrow> ExcelRow list" where
  "excelRows rows = map excelRow (enumerate 0 rows)"

text \<open>
  The table is rendered under \<open>results && status === 'completed'\<close>, from
  \<open>excelData\<close> when it is not null.
\<close>

definition excelTable :: "ApiTestGeneration \<Rightarrow> ExcelRow list option" where
  "excelTable st =
     (if results st \<noteq> None \<and> status st = Completed
      then map_option excelRows (excelData st) else None)"

text \<open>The number a test ID carries after its \<open>TC_\<close> prefix.\<close>

definition id_number :: "string \<Rightarrow> nat" where
  "id_number s = nat_of_digits (drop 3 s)"


subsection \<open>The two revisions that simulate the workflow\<close>

text \<open>
  \<^verbatim>\<open>
  setStatus('generating'); setProgress(0);
  try {
    for (const step of steps) {
      setCurrentStep(step.label); setStatus(step.id as TestStatus); setProgress(step.progress);
      await new Promise(resolve => setTimeout(resolve, 2000));
    }
    setResults(mockResults); setStatus('completed'); onTestGenerated(mockResults);
  } catch (error) { setStatus('failed'); ... }
  \<close>
  Nothing in the \<open>try\<close> block throws. The two revisions differ in \<open>steps\<close> and in
  the mock results: \<open>steps_v1\<close> and \<open>mockResults\<close> are those of the four-step
  revision, \<open>steps_v2\<close> those of the two-step revision.
\<close>

record Step =
  step_id :: TestStatus
  step_label :: string
  step_progress :: nat

definition steps_v1 :: "Step list" where
  "steps_v1 =
     [\<lparr>step_id = Generating, step_label = ''Generating Tests with Gemini AI'', step_progress = 25\<rparr>,
      \<lparr>step_id = Parsing, step_label = ''Parsing Response & Extracting Scripts'', step_progress = 50\<rparr>,
      \<lparr>step_id = Running, step_label = ''Compiling & Running Unit Tests'', step_progress = 75\<rparr>,
      \<lparr>step_id = Completed, step_label = ''Generating Coverage Report'', step_progress = 100\<rparr>]"

definition steps_v2 :: "Step list" where
  "steps_v2 =
     [\<lparr>step_id = Generating, step_label = ''Generating Tests with Gemini AI'', step_progress = 50\<rparr>,
      \<lparr>step_id = Parsing, step_label = ''Test Generation Complete'', step_progress = 100\<rparr>]"

record FailedTest =
  ft_name :: string
  ft_error :: string

text \<open>The mock results of the first revision; the number 85.5 is kept as its text.\<close>

record MockResults =
  testsGenerated :: nat
  testsPassed :: nat
  testsFailed :: nat
  coverage :: string
  executionTime :: string
  failedTests :: "FailedTest list"
  excelReport :: string
  coverageReport :: string

definition mockResults :: MockResults where
  "mockResults =
     \<lparr>testsGenerated = 12, testsPassed = 10, testsFailed = 2, coverage = ''85.5'',
      executionTime = ''2.34s'',
      failedTests =
        [\<lparr>ft_name = ''test_divide_by_zero'', ft_error = ''Assertion failed: Expected 0, got inf''\<rparr>,
         \<lparr>ft_name = ''test_null_pointer'', ft_error = ''Segmentation fault''\<rparr>],
      excelReport = ''unit_tests_report.xlsx'', coverageReport = ''coverage_report.html''\<rparr>"

text \<open>The second revision reports \<open>{ generated: true }\<close>.\<close>

record GeneratedFlag =
  generated_flag :: bool

definition enter_step :: "Step \<Rightarrow> 'r TestGeneration \<Rightarrow> 'r TestGeneration" where
  "enter_step step st =
     st\<lparr>currentStep := step_label step, status := step_id step, progress := step_progress step\<rparr>"

text \<open>
  A run of \<open>generateTests\<close> that is suspended in the \<open>await\<close> of the loop is
  described by the number \<open>k\<close> of steps it has entered. When its timer fires it enters
  step \<open>k\<close> of the list (counted from zero) and suspends again, or, the list being
  exhausted, stores the results and returns (\<open>None\<close>).
\<close>

definition mock_resume ::
  "Step list \<Rightarrow> 'r \<Rightarrow> nat \<Rightarrow> 'r TestGeneration \<Rightarrow> 'r TestGeneration \<times> nat option" where
  "mock_resume steps mock k st =
     (if k < length steps then (enter_step (steps ! k) st, Some (Suc k))
      else (st\<lparr>results := Some mock, status := Completed,
               generated := generated st @ [mock]\<rparr>, None))"

definition mock_start ::
  "Step list \<Rightarrow> 'r \<Rightarrow> 'r TestGeneration \<Rightarrow> 'r TestGeneration \<times> nat option" where
  "mock_start steps mock st = mock_resume steps mock 0 (st\<lparr>status := Generating, progress := 0\<rparr>)"

text \<open>
  The component with its runs in flight, oldest first. The events are a click on the
  Generate button, with the \<open>files\<close> prop of that moment, and the timer of the
  \<open>i\<close>-th run in flight firing. The button exists only when \<open>files\<close> is not empty,
  and a disabled button does not call its handler.
\<close>

record 'r MockSystem =
  comp :: "'r TestGeneration"
  runs :: "nat list"

datatype MockEvent = Click "UploadedFile list" | Timeout nat

fun mock_fire :: "Step list \<Rightarrow> 'r \<Rightarrow> 'r MockSystem \<Rightarrow> MockEvent \<Rightarrow> 'r MockSystem" where
  "mock_fire steps mock sys (Click fs) =
     (if fs = [] \<or> generate_disabled (status (comp sys)) then sys
      else (case mock_start steps mock (comp sys) of
              (c, pc) \<Rightarrow> \<lparr>comp = c, runs = runs sys @ (case pc of None \<Rightarrow> [] | Some k \<Rightarrow> [k])\<rparr>))"
| "mock_fire steps mock sys (Timeout i) =
     (if i < length (runs sys) then
        (case mock_resume steps mock (runs sys ! i) (comp sys) of
           (c, pc) \<Rightarrow>
             \<lparr>comp = c,
              runs = (case pc of None \<Rightarrow> take i (runs sys) @ drop (Suc i) (runs sys)
                      | Some k \<Rightarrow> (runs sys)[i := k])\<rparr>)
      else sys)"

definition mock_run ::
  "Step list \<Rightarrow> 'r \<Rightarrow> 'r MockSystem \<Rightarrow> MockEvent list \<Rightarrow> 'r MockSystem" where
  "mock_run steps mock sys evs = foldl (mock_fire steps mock) sys evs"

definition initial :: "'r TestGeneration" where
  "initial =
     \<lparr>status = Idle, progress = 0, currentStep = [], results = None, generated = [],
      console = []\<rparr>"

definition mock_initial :: "'r MockSystem" where
  "mock_initial = \<lparr>comp = initial, runs = []\<rparr>"

text \<open>
  The invariant of the second simulating revision: a run in flight has entered one step or two, and
  the status is that step's; with no run in flight the button is enabled.
\<close>

definition v2_inv :: "'r MockSystem \<Rightarrow> bool" where
  "v2_inv sys =
     (runs sys = [] \<and> \<not> generate_disabled (status (comp sys)) \<or>
      runs sys = [1] \<and> status (comp sys) = Generating \<or>
      runs sys = [2] \<and> status (comp sys) = Parsing)"

subsection \<open>The backend revision as a system\<close>

text \<open>
  The same for the revision that calls the backend: a click with the \<open>files\<close> prop
  of that moment, and a pending fetch settling. \<open>awaiting\<close> counts the runs of
  \<open>generateTests\<close> suspended in their \<open>await\<close>.
\<close>

record ApiSystem =
  api_comp :: ApiTestGeneration
  awaiting :: nat

datatype ApiEvent = ApiClick "UploadedFile list" | Settled FetchResult

fun api_fire :: "ApiSystem \<Rightarrow> ApiEvent \<Rightarrow> ApiSystem" where
  "api_fire sys (ApiClick fs) =
     (if fs = [] \<or> generate_disabled (status (api_comp sys)) then sys
      else (case generateTests_start fs (api_comp sys) of
              (c, sent) \<Rightarrow> \<lparr>api_comp = c, awaiting = awaiting sys + (if sent then 1 else 0)\<rparr>))"
| "api_fire sys (Settled res) =
     (if awaiting sys = 0 then sys
      else \<lparr>api_comp = generateTests_resume res (api_comp sys), awaiting = awaiting sys - 1\<rparr>)"

definition api_run :: "ApiSystem \<Rightarrow> ApiEvent list \<Rightarrow> ApiSystem" where
  "api_run sys evs = foldl api_fire sys evs"

definition api_initial :: ApiSystem where
  "api_initial =
     \<lparr>api_comp =
        \<lparr>status = Idle, progress = 0, currentStep = [], results = None, generated = [],
         console = [], excelData = None, testScripts = None, requests = []\<rparr>,
      awaiting = 0\<rparr>"


text \<open>
  The invariant of the backend revision: a run in flight is waiting for its fetch with the status
  \<open>generating\<close>, and it ends in \<open>completed\<close> or \<open>failed\<close>.
\<close>

definition api_inv :: "ApiSystem \<Rightarrow> bool" where
  "api_inv sys =
     (awaiting sys = 0 \<and> \<not> generate_disabled (status (api_comp sys)) \<or>
      awaiting sys = 1 \<and> status (api_comp sys) = Generating)"

subsection \<open>The page\<close>

text \<open>
  \<open>Index\<close> owns the uploaded files and the last results. It hands \<open>uploadedFiles\<close>
  to the test-generation component as its \<open>files\<close> prop and receives the results
  through \<open>handleTestGenerated\<close>.
\<close>

record Index =
  uploadedFiles :: "UploadedFile list"
  testResults :: "TestData option"

definition handleFilesChange :: "UploadedFile list \<Rightarrow> Index \<Rightarrow> Index" where
  "handleFilesChange fs page = page\<lparr>uploadedFiles := fs\<rparr>"

definition handleTestGenerated :: "Index \<Rightarrow> TestData \<Rightarrow> Index" where
  "handleTestGenerated page r = page\<lparr>testResults := Some r\<rparr>"

text \<open>
  One complete run of \<open>generateTests\<close> on the page: the component runs with the
  page's files, and the page handles every call of \<open>onTestGenerated\<close> the run made.
\<close>

definition page_generate ::
  "FetchResult \<Rightarrow> Index \<times> ApiTestGeneration \<Rightarrow> Index \<times> ApiTestGeneration" where
  "page_generate res p =
     (case p of (page, st) \<Rightarrow>
        (let st' = generateTests (uploadedFiles page) res st
         in (foldl handleTestGenerated page (drop (length (generated st)) (generated st')), st')))"

section \<open>Response parsing and reconciliation\<close>

text \<open>
  The parsers and the reconciler belong to the backend (\<open>generateUnitTest.py\<close>,
  \<open>app.py\<close>), of which the repository's TypeScript sources hold only the caller.
  This section models them from the specification (its sections 3, 4.2 and 4.3). What
  the specification leaves open is a parameter: the default category, the naming
  convention of test functions and the placeholder names.
\<close>

text \<open>Modelled from the spec: the category of a TestCaseRecord (backend data model).\<close>

datatype Category = Positive | Negative | Boundary | Error

text \<open>
  Modelled from the spec: the TestCaseRecord of the backend data model. \<open>tc_id\<close> is
  the record's \<open>id\<close>; it is empty until the reconciler assigns it.
\<close>

record TestCaseRecord =
  tc_id :: string
  function_name :: string
  description :: string
  input_data :: string
  expected_output :: string
  category :: Category
  test_code :: string

text \<open>
  Modelled from the spec: the ParseIssue of the backend parsers. A dropped record is
  reported with its position in the candidate and the required fields it lacks; a
  code-fence record whose name was not inferred is flagged.
\<close>

datatype ParseIssue = DroppedRecord nat "string list" | LowConfidenceName nat

text \<open>
  Modelled from the spec: a record as a backend parser meets it, a map from field names
  to texts. A structured block is a list of them, a tabular block a header row and its
  rows of cells, and the code fences are their bodies.
\<close>

type_synonym RawRecord = "(string \<times> string) list"

text \<open>
  Modelled from the spec: the EnvelopeCandidate of the backend's detector, by kind, with
  the payload its parser reads (the offsets into the response are left out).
\<close>

datatype EnvelopeCandidate =
  StructuredBlock "RawRecord list"
| TabularBlock "string list" "string list list"
| CodeBlock "string list"

text \<open>
  Modelled from the spec: the choices the backend parsers make where the specification
  names none.
\<close>

record ParserConfig =
  default_category :: Category
  infer_name :: "string \<Rightarrow> string option"
  placeholder_name :: "nat \<Rightarrow> string"

text \<open>Modelled from the spec: case folding of the backend's case-insensitive matching (ASCII).\<close>

definition to_lower :: "char \<Rightarrow> char" where
  "to_lower c =
     (let n = of_char c :: nat in if 65 \<le> n \<and> n \<le> 90 then char_of (n + 32) else c)"

text \<open>
  Modelled from the spec: field access of the backend parsers; a missing field degrades
  to the empty string, and unknown fields are never looked at.
\<close>

definition field :: "RawRecord \<Rightarrow> string \<Rightarrow> string" where
  "field raw k = (case map_of raw k of None \<Rightarrow> [] | Some v \<Rightarrow> v)"

text \<open>Modelled from the spec: the backend's reading of a category, with a default.\<close>

definition parse_category :: "Category \<Rightarrow> string \<Rightarrow> Category" where
  "parse_category dc s =
     (let t = map to_lower s in
      if t = ''positive'' then Positive
      else if t = ''negative'' then Negative
      else if t = ''boundary'' then Boundary
      else if t = ''error'' then Error
      else dc)"

text \<open>Modelled from the spec: the record a backend parser builds from the fields it found.\<close>

definition to_record :: "ParserConfig \<Rightarrow> RawRecord \<Rightarrow> TestCaseRecord" where
  "to_record cfg raw =
     \<lparr>tc_id = [],
      function_name = field raw ''function_name'',
      description = field raw ''description'',
      input_data = field raw ''input_data'',
      expected_output = field raw ''expected_output'',
      category = parse_category (default_category cfg) (field raw ''category''),
      test_code = field raw ''test_code''\<rparr>"

text \<open>Modelled from the spec: the required fields a record of the backend parsers lacks.\<close>

definition missing_fields :: "RawRecord \<Rightarrow> string list" where
  "missing_fields raw = filter (\<lambda>k. field raw k = []) [''function_name'', ''test_code'']"

text \<open>
  Modelled from the spec: the backend parsers' treatment of one record, dropped with an
  issue when \<open>function_name\<close> or \<open>test_code\<close> is missing.
\<close>

definition parse_record :: "ParserConfig \<Rightarrow> nat \<Rightarrow> RawRecord \<Rightarrow> ParseIssue + TestCaseRecord" where
  "parse_record cfg i raw =
     (if missing_fields raw = [] then Inr (to_record cfg raw)
      else Inl (DroppedRecord i (missing_fields raw)))"

text \<open>
  Modelled from the spec: the backend parsers' loop over the records of one candidate,
  from position \<open>i\<close> on; a dropped record does not stop it.
\<close>

fun parse_from ::
  "ParserConfig \<Rightarrow> nat \<Rightarrow> RawRecord list \<Rightarrow> TestCaseRecord list \<times> ParseIssue list" where
  "parse_from cfg i [] = ([], [])"
| "parse_from cfg i (raw # raws) =
     (case parse_from cfg (Suc i) raws of
        (records, issues) \<Rightarrow>
          (case parse_record cfg i raw of
             Inr r \<Rightarrow> (r # records, issues)
           | Inl e \<Rightarrow> (records, e # issues)))"

text \<open>
  Modelled from the spec: a row of the backend's tabular parser, padded with empty cells
  or cut to the number of headers, its cells named by the headers without regard to case.
\<close>

definition row_to_raw :: "string list \<Rightarrow> string list \<Rightarrow> RawRecord" where
  "row_to_raw headers cells =
     zip (map (map to_lower) headers)
         (take (length headers) (cells @ replicate (length headers - length cells) []))"

text \<open>
  Modelled from the spec: a body of the backend's code-fence parser; the name is inferred
  from the body or is the placeholder of its position.
\<close>

definition body_to_raw :: "ParserConfig \<Rightarrow> nat \<times> string \<Rightarrow> RawRecord" where
  "body_to_raw cfg p =
     (case p of (i, body) \<Rightarrow>
        [(''test_code'', body),
         (''function_name'',
            (case infer_name cfg body of Some n \<Rightarrow> n | None \<Rightarrow> placeholder_name cfg i))])"

text \<open>Modelled from the spec: the low-confidence flags of the backend's code-fence parser.\<close>

definition low_confidence :: "ParserConfig \<Rightarrow> string list \<Rightarrow> ParseIssue list" where
  "low_confidence cfg bodies =
     map (\<lambda>p. LowConfidenceName (fst p))
       (filter (\<lambda>p. infer_name cfg (snd p) = None) (enumerate 0 bodies))"

text \<open>Modelled from the spec: the raw records a backend parser meets in a candidate.\<close>

fun encountered :: "ParserConfig \<Rightarrow> EnvelopeCandidate \<Rightarrow> RawRecord list" where
  "encountered cfg (StructuredBlock raws) = raws"
| "encountered cfg (TabularBlock headers rows) = map (row_to_raw headers) rows"
| "encountered cfg (CodeBlock bodies) = map (body_to_raw cfg) (enumerate 0 bodies)"

text \<open>
  Modelled from the spec: \<open>parse(candidate) -> (records, errors)\<close>, one backend parser
  per kind of envelope.
\<close>

fun parse :: "ParserConfig \<Rightarrow> EnvelopeCandidate \<Rightarrow> TestCaseRecord list \<times> ParseIssue list" where
  "parse cfg (CodeBlock bodies) =
     (case parse_from cfg 0 (encountered cfg (CodeBlock bodies)) of
        (records, issues) \<Rightarrow> (records, issues @ low_confidence cfg bodies))"
| "parse cfg c = parse_from cfg 0 (encountered cfg c)"

text \<open>Modelled from the spec: the issue of a dropped record (backend ParseIssue).\<close>

fun is_dropped :: "ParseIssue \<Rightarrow> bool" where
  "is_dropped (DroppedRecord i ks) = True"
| "is_dropped (LowConfidenceName i) = False"

text \<open>Modelled from the spec: white space as the backend's dedup key collapses it.\<close>

definition is_space :: "char \<Rightarrow> bool" where
  "is_space c = (c = CHR '' '' \<or> c = CHR 0x09 \<or> c = CHR 0x0A \<or> c = CHR 0x0D)"

text \<open>
  Modelled from the spec: collapsing of white space in the backend's dedup key; every run
  of white space becomes one blank. The flag tells that the previous character was
  white space.
\<close>

fun collapse_ws :: "bool \<Rightarrow> string \<Rightarrow> string" where
  "collapse_ws in_ws [] = []"
| "collapse_ws in_ws (c # cs) =
     (if is_space c then (if in_ws then collapse_ws True cs else CHR '' '' # collapse_ws True cs)
      else c # collapse_ws False cs)"

text \<open>Modelled from the spec: the normalisation of the backend's dedup key.\<close>

definition normalize :: "string \<Rightarrow> string" where
  "normalize s = collapse_ws False (map to_lower s)"

text \<open>
  Modelled from the spec: the dedup key of the backend reconciler, the normalised
  \<open>(function_name, description)\<close> pair.
\<close>

definition dedup_key :: "TestCaseRecord \<Rightarrow> string \<times> string" where
  "dedup_key r = (normalize (function_name r), normalize (description r))"

text \<open>
  Modelled from the spec: one step of the backend reconciler's accumulation; a record is
  accepted only if no accepted record shares its dedup key.
\<close>

definition accept :: "TestCaseRecord list \<Rightarrow> TestCaseRecord \<Rightarrow> TestCaseRecord list" where
  "accept acc r = (if dedup_key r \<in> set (map dedup_key acc) then acc else acc @ [r])"

text \<open>
  Modelled from the spec: the backend reconciler's walk over the candidates' records in
  priority order.
\<close>

definition accumulate ::
  "TestCaseRecord list \<Rightarrow> TestCaseRecord list list \<Rightarrow> TestCaseRecord list" where
  "accumulate acc candidates = foldl (foldl accept) acc candidates"

text \<open>
  Modelled from the spec: the backend reconciler's sequential IDs in final-list order,
  TC_001, TC_002 and so on.
\<close>

definition assign_ids :: "TestCaseRecord list \<Rightarrow> TestCaseRecord list" where
  "assign_ids records = map (\<lambda>p. (snd p)\<lparr>tc_id := test_id (fst p)\<rparr>) (enumerate 0 records)"

text \<open>
  Modelled from the spec: the distinct names in first-seen order, as the backend
  reconciler computes \<open>functions_tested\<close>.
\<close>

fun first_seen :: "string list \<Rightarrow> string list \<Rightarrow> string list" where
  "first_seen seen [] = seen"
| "first_seen seen (n # ns) =
     (if n \<in> set seen then first_seen seen ns else first_seen (seen @ [n]) ns)"

text \<open>Modelled from the spec: the summary of the backend's TestArtifactBundle.\<close>

record Summary =
  total_tests :: nat
  functions_tested :: "string list"
  coverage_areas :: "string list"

text \<open>Modelled from the spec: the TestArtifactBundle of the backend data model.\<close>

record TestArtifactBundle =
  bundle_test_cases :: "TestCaseRecord list"
  runner_script :: string
  build_script :: string
  summary :: Summary

text \<open>Modelled from the spec: the terminal condition of the backend reconciler.\<close>

datatype ReconcileError = NoExtractableTestCases

text \<open>
  Modelled from the spec: the bundle the backend reconciler builds from the final list;
  the scripts and the coverage areas come from elsewhere in the response.
\<close>

definition make_bundle ::
  "string \<Rightarrow> string \<Rightarrow> string list \<Rightarrow> TestCaseRecord list \<Rightarrow> TestArtifactBundle" where
  "make_bundle runner build areas final =
     \<lparr>bundle_test_cases = final, runner_script = runner, build_script = build,
      summary =
        \<lparr>total_tests = length final,
         functions_tested = first_seen [] (map function_name final),
         coverage_areas = areas\<rparr>\<rparr>"

text \<open>
  Modelled from the spec: the backend's ParseReconciler, from the candidates' records in
  priority order to one bundle or the terminal condition.
\<close>

definition reconcile ::
  "string \<Rightarrow> string \<Rightarrow> string list \<Rightarrow> TestCaseRecord list list
     \<Rightarrow> ReconcileError + TestArtifactBundle" where
  "reconcile runner build areas candidates =
     (let final = assign_ids (accumulate [] candidates)
      in if final = [] then Inl NoExtractableTestCases
         else Inr (make_bundle runner build areas final))"

text \<open>
  Modelled from the spec: the fixed priority of the backend's envelope kinds, structured
  blocks first, then tabular blocks, then code fences.
\<close>

fun priority :: "EnvelopeCandidate \<Rightarrow> nat" where
  "priority (StructuredBlock raws) = 0"
| "priority (TabularBlock headers rows) = 1"
| "priority (CodeBlock bodies) = 2"

text \<open>
  Modelled from the spec: the order in which the backend's detector hands the candidates
  on, by that priority and otherwise as they stand in the response.
\<close>

definition by_priority :: "EnvelopeCandidate list \<Rightarrow> EnvelopeCandidate list" where
  "by_priority cs =
     filter (\<lambda>c. priority c = 0) cs @ filter (\<lambda>c. priority c = 1) cs
       @ filter (\<lambda>c. priority c = 2) cs"

text \<open>
  Modelled from the spec: the backend's parsing pipeline, from the candidates of a
  response to the bundle.
\<close>

definition pipeline ::
  "ParserConfig \<Rightarrow> string \<Rightarrow> string \<Rightarrow> string list \<Rightarrow> EnvelopeCandidate list
     \<Rightarrow> ReconcileError + TestArtifactBundle" where
  "pipeline cfg runner build areas cs =
     reconcile runner build areas (map (\<lambda>c. fst (parse cfg c)) (by_priority cs))"


section \<open>Verification\<close>

subsection \<open>Facts about the upload component\<close>

lemma endsWith_suffix: "endsWith s t = suffix t s"
proof
  assume "endsWith s t"
  then have "s = take (length s - length t) s @ t"
    by (metis append_take_drop_id endsWith_def)
  then show "suffix t s"
    by (metis suffixI)
next
  assume "suffix t s"
  then obtain p where "s = p @ t"
    by (auto simp: suffix_def)
  then show "endsWith s t"
    by (simp add: endsWith_def)
qed

lemma length_newFiles: "length (newFiles rnd j fs) = length fs"
  by (induction fs arbitrary: j) simp_all

lemma newFiles_nth:
  "k < length fs \<Longrightarrow>
     file_id (newFiles rnd j fs ! k) = rnd (j + k) \<and>
     name (newFiles rnd j fs ! k) = bf_name (fs ! k) \<and>
     fsize (newFiles rnd j fs ! k) = bf_size (fs ! k) \<and>
     content (newFiles rnd j fs ! k) = Some (bf_text (fs ! k)) \<and>
     ftype (newFiles rnd j fs ! k) = fileType (bf_name (fs ! k))"
proof (induction fs arbitrary: j k)
  case Nil
  then show ?case by simp
next
  case (Cons f fs)
  show ?case
  proof (cases k)
    case 0
    then show ?thesis by (simp add: newFile_def)
  next
    case (Suc m)
    with Cons.prems have "m < length fs" by simp
    from Cons.IH [OF this, of "Suc j"] Suc show ?thesis by simp
  qed
qed

lemma hpp_not_header: "\<not> endsWith (p @ ''.hpp'') ''.h''"
  by (simp add: endsWith_def)

text \<open>
  C8. Every file that \<open>processFiles\<close> adds gets the type \<open>header\<close> exactly when its
  name ends with ".h", and \<open>source\<close> otherwise; a name ending with ".hpp", which the
  file chooser's \<open>accept\<close> attribute lets through, is a \<open>source\<close>.
\<close>

theorem processFiles_type:
  "length (files (processFiles captured rnd fileList st)) = length captured + length fileList \<and>
   (\<forall>k < length fileList.
      name (files (processFiles captured rnd fileList st) ! (length captured + k))
        = bf_name (fileList ! k) \<and>
      (ftype (files (processFiles captured rnd fileList st) ! (length captured + k)) = Header
         \<longleftrightarrow> (\<exists>p. bf_name (fileList ! k) = p @ ''.h'')) \<and>
      (ftype (files (processFiles captured rnd fileList st) ! (length captured + k)) = Source
         \<longleftrightarrow> \<not> (\<exists>p. bf_name (fileList ! k) = p @ ''.h''))) \<and>
   (\<forall>p. fileType (p @ ''.hpp'') = Source)"
proof -
  have sfx: "endsWith n ''.h'' \<longleftrightarrow> (\<exists>p. n = p @ ''.h'')" for n
    by (simp add: endsWith_suffix suffix_def)
  have len: "length (files (processFiles captured rnd fileList st))
               = length captured + length fileList"
    by (simp add: processFiles_def Let_def length_newFiles)
  have nth: "files (processFiles captured rnd fileList st) ! (length captured + k)
               = newFiles rnd 0 fileList ! k" for k
    by (simp add: processFiles_def Let_def nth_append)
  have "name (newFiles rnd 0 fileList ! k) = bf_name (fileList ! k) \<and>
        ftype (newFiles rnd 0 fileList ! k) = fileType (bf_name (fileList ! k))"
    if "k < length fileList" for k
    using newFiles_nth [OF that] by simp
  then have one: "\<forall>k < length fileList.
      name (files (processFiles captured rnd fileList st) ! (length captured + k))
        = bf_name (fileList ! k) \<and>
      (ftype (files (processFiles captured rnd fileList st) ! (length captured + k)) = Header
         \<longleftrightarrow> (\<exists>p. bf_name (fileList ! k) = p @ ''.h'')) \<and>
      (ftype (files (processFiles captured rnd fileList st) ! (length captured + k)) = Source
         \<longleftrightarrow> \<not> (\<exists>p. bf_name (fileList ! k) = p @ ''.h''))"
    by (simp add: nth fileType_def sfx)
  have two: "\<forall>p. fileType (p @ ''.hpp'') = Source"
    by (simp add: fileType_def hpp_not_header)
  from len one two show ?thesis by blast
qed

theorem processFiles_type_witness:
  "(1::nat) < length [\<lparr>bf_name = ''util.h'', bf_size = 10, bf_text = ''int f(void);''\<rparr>,
                  \<lparr>bf_name = ''util.hpp'', bf_size = 12, bf_text = ''int g(void);''\<rparr>] \<and>
   ftype (files (processFiles [] (\<lambda>k. ''k3j9x'')
            [\<lparr>bf_name = ''util.h'', bf_size = 10, bf_text = ''int f(void);''\<rparr>,
             \<lparr>bf_name = ''util.hpp'', bf_size = 12, bf_text = ''int g(void);''\<rparr>]
            \<lparr>files = [], reported = []\<rparr>) ! 0) = Header \<and>
   ftype (files (processFiles [] (\<lambda>k. ''k3j9x'')
            [\<lparr>bf_name = ''util.h'', bf_size = 10, bf_text = ''int f(void);''\<rparr>,
             \<lparr>bf_name = ''util.hpp'', bf_size = 12, bf_text = ''int g(void);''\<rparr>]
            \<lparr>files = [], reported = []\<rparr>) ! 1) = Source"
  using processFiles_type [where
      fileList = "[\<lparr>bf_name = ''util.h'', bf_size = 10, bf_text = ''int f(void);''\<rparr>,
        \<lparr>bf_name = ''util.hpp'', bf_size = 12, bf_text = ''int g(void);''\<rparr>]"
      and captured = "[]" and rnd = "\<lambda>k. ''k3j9x''" and st = "\<lparr>files = [], reported = []\<rparr>"]
  by (simp add: processFiles_def newFile_def fileType_def endsWith_def)

text \<open>
  C10. Removing a file by id leaves exactly the files with another id: the new list is
  the old one filtered, so it is a subsequence of the old list (the order is kept), every
  file with another id occurs in it as often as before and is the same record, no file
  with the given id is left, however many there were, and the new list is what
  \<open>onFilesChange\<close> receives.
\<close>

theorem removeFile_frame:
  "files (removeFile i st) = filter (\<lambda>file. file_id file \<noteq> i) (files st) \<and>
   set (files (removeFile i st)) = {file \<in> set (files st). file_id file \<noteq> i} \<and>
   subseq (files (removeFile i st)) (files st) \<and>
   (\<forall>file. file_id file \<noteq> i \<longrightarrow>
      count (mset (files (removeFile i st))) file = count (mset (files st)) file) \<and>
   (\<forall>file \<in> set (files st). file_id file = i \<longrightarrow> file \<notin> set (files (removeFile i st))) \<and>
   reported (removeFile i st) = reported st @ [files (removeFile i st)]"
proof -
  have kept: "files (removeFile i st) = filter (\<lambda>file. file_id file \<noteq> i) (files st)"
    by (simp add: removeFile_def Let_def)
  then have members: "set (files (removeFile i st)) = {file \<in> set (files st). file_id file \<noteq> i}"
    by simp
  from kept have order: "subseq (files (removeFile i st)) (files st)"
    by simp
  from kept have often: "\<forall>file. file_id file \<noteq> i \<longrightarrow>
      count (mset (files (removeFile i st))) file = count (mset (files st)) file"
    by simp
  from members have gone: "\<forall>file \<in> set (files st). file_id file = i \<longrightarrow>
      file \<notin> set (files (removeFile i st))"
    by simp
  have told: "reported (removeFile i st) = reported st @ [files (removeFile i st)]"
    by (simp add: removeFile_def Let_def)
  from kept members order often gone told show ?thesis
    by blast
qed

theorem removeFile_frame_witness:
  "files (removeFile ''k3j9x''
     \<lparr>files =
        [\<lparr>file_id = ''k3j9x'', name = ''a.c'', fsize = 1, ftype = Source, content = Some ''x''\<rparr>,
         \<lparr>file_id = ''q0w8e'', name = ''b.h'', fsize = 2, ftype = Header, content = None\<rparr>,
         \<lparr>file_id = ''k3j9x'', name = ''c.c'', fsize = 3, ftype = Source, content = Some ''z''\<rparr>],
      reported = []\<rparr>)
     = [\<lparr>file_id = ''q0w8e'', name = ''b.h'', fsize = 2, ftype = Header, content = None\<rparr>] \<and>
   reported (removeFile ''k3j9x''
     \<lparr>files =
        [\<lparr>file_id = ''k3j9x'', name = ''a.c'', fsize = 1, ftype = Source, content = Some ''x''\<rparr>,
         \<lparr>file_id = ''q0w8e'', name = ''b.h'', fsize = 2, ftype = Header, content = None\<rparr>,
         \<lparr>file_id = ''k3j9x'', name = ''c.c'', fsize = 3, ftype = Source, content = Some ''z''\<rparr>],
      reported = []\<rparr>)
     = [[\<lparr>file_id = ''q0w8e'', name = ''b.h'', fsize = 2, ftype = Header, content = None\<rparr>]]"
  using removeFile_frame [of "''k3j9x''"
     "\<lparr>files =
        [\<lparr>file_id = ''k3j9x'', name = ''a.c'', fsize = 1, ftype = Source, content = Some ''x''\<rparr>,
         \<lparr>file_id = ''q0w8e'', name = ''b.h'', fsize = 2, ftype = Header, content = None\<rparr>,
         \<lparr>file_id = ''k3j9x'', name = ''c.c'', fsize = 3, ftype = Source, content = Some ''z''\<rparr>],
      reported = []\<rparr>"]
  by simp

subsection \<open>Facts about the strings\<close>

lemma digit_val_digit_char: "d < 10 \<Longrightarrow> digit_val (digit_char d) = d"
  by (simp add: digit_val_def digit_char_def)

lemma nat_of_digits_snoc: "nat_of_digits (s @ [c]) = 10 * nat_of_digits s + digit_val c"
  by (simp add: nat_of_digits_def)

lemma nat_of_digits_String_nat: "nat_of_digits (String_nat n) = n"
proof (induction n rule: String_nat.induct)
  case (1 n)
  show ?case
  proof (cases "n < 10")
    case True
    then show ?thesis
      by (simp add: String_nat.simps [of n] nat_of_digits_def digit_val_digit_char)
  next
    case False
    with "1" have "nat_of_digits (String_nat (n div 10)) = n div 10"
      by simp
    with False show ?thesis
      by (simp add: String_nat.simps [of n] nat_of_digits_snoc digit_val_digit_char)
  qed
qed

lemma nat_of_digits_zeros: "nat_of_digits (replicate k CHR ''0'' @ s) = nat_of_digits s"
proof -
  have "foldl (\<lambda>a c. 10 * a + digit_val c) 0 (replicate k CHR ''0'') = 0"
    by (induction k) (simp_all add: digit_val_def)
  then show ?thesis
    by (simp add: nat_of_digits_def)
qed

lemma concat_replicate_single: "concat (replicate k [c]) = replicate k c"
  by (induction k) simp_all

lemma padStart_zero: "padStart n ''0'' s = replicate (n - length s) CHR ''0'' @ s"
  by (simp add: padStart_def concat_replicate_single)

lemma test_id_eq:
  "test_id i = ''TC_'' @ replicate (3 - length (String_nat (i + 1))) CHR ''0'' @ String_nat (i + 1)"
  by (simp add: test_id_def padStart_zero)

lemma id_number_test_id: "id_number (test_id i) = i + 1"
  by (simp add: test_id_eq id_number_def nat_of_digits_zeros nat_of_digits_String_nat)

lemma inj_test_id: "inj test_id"
  by (metis id_number_test_id add_right_cancel injI)

lemma distinct_test_ids: "distinct (map test_id [0..<n])"
  by (simp add: distinct_map inj_on_subset [OF inj_test_id])

lemma test_id_first: "test_id 0 = ''TC_001''"
  by code_simp

subsection \<open>Facts about the backend revision\<close>

lemma success_with_data_iff:
  "success_with_data res = Some td \<longleftrightarrow>
     (\<exists>statusText r. res = HttpResponse True statusText (Some r) \<and>
        resp_status r = Some ''success'' \<and> resp_data r = Some td)"
  by (cases res) (auto simp: success_with_data_def generateTestsAPI_def split: option.splits)

lemma generateTests_empty:
  "generateTests [] res st = st\<lparr>console := console st @ [''No files available for processing'']\<rparr>"
  by (simp add: generateTests_def generateTests_start_def)

lemma generateTests_failure:
  assumes "fs \<noteq> []" and "success_with_data res = None"
  shows "\<exists>msg. generateTests fs res st =
           generation_failed msg (fst (generateTests_start fs st))"
  using assms
  by (auto simp: generateTests_def generateTests_start_def generateTests_resume_def
      success_with_data_def split: sum.splits option.splits if_splits)

lemma generateTests_success:
  assumes "fs \<noteq> []" and "success_with_data res = Some td"
  shows "generateTests fs res st =
           (fst (generateTests_start fs st))
             \<lparr>status := Completed, progress := 100,
              currentStep := ''Test Generation Complete'',
              results := Some td,
              excelData := Some (case test_cases td of None \<Rightarrow> [] | Some tcs \<Rightarrow> tcs),
              testScripts := Some
                \<lparr>ts_test_runner_script = or_default (test_runner_script td) [],
                 ts_makefile_content = or_default (makefile_content td) [],
                 ts_test_cases = (case test_cases td of None \<Rightarrow> [] | Some tcs \<Rightarrow> tcs)\<rparr>,
              generated := generated st @ [td]\<rparr>"
  using assms
  by (auto simp: generateTests_def generateTests_start_def generateTests_resume_def
      success_with_data_def split: sum.splits option.splits if_splits)

lemma requests_start:
  "requests (fst (generateTests_start fs st)) =
     (if fs = [] then requests st else requests st @ [fileData fs])"
  by (simp add: generateTests_start_def)

lemma requests_resume: "requests (generateTests_resume res st) = requests st"
  by (simp add: generateTests_resume_def generation_failed_def
      split: sum.splits option.splits)

lemma requests_generateTests:
  "requests (generateTests fs res st) =
     (if fs = [] then requests st else requests st @ [fileData fs])"
  by (simp add: generateTests_def generateTests_start_def requests_resume)

lemma length_excelRows: "length (excelRows rows) = length rows"
  by (simp add: excelRows_def)

lemma cell_id_excelRows: "i < length rows \<Longrightarrow> cell_id (excelRows rows ! i) = test_id i"
  by (simp add: excelRows_def excelRow_def nth_enumerate_eq)

lemma map_cell_id_excelRows: "map cell_id (excelRows rows) = map test_id [0..<length rows]"
  by (rule nth_equalityI) (simp_all add: length_excelRows cell_id_excelRows)

text \<open>
  C6. Whenever the reply is not a success carrying data (the fetch is rejected, the
  response is not \<open>ok\<close>, its body cannot be read, its status is not \<open>success\<close> or its
  data is missing), the run ends in the \<open>failed\<close> state, \<open>onTestGenerated\<close> is not
  called, and neither the component nor the page receives any results. A success
  carrying data, also one with no test case at all, ends in \<open>completed\<close> with the
  callback called once: the two outcomes differ in the status.
\<close>

theorem failure_reported:
  assumes "fs \<noteq> []"
  shows "(success_with_data res = None \<longrightarrow>
            status (generateTests fs res st) = Failed \<and>
            currentStep (generateTests fs res st) = ''Generation failed'' \<and>
            generated (generateTests fs res st) = generated st \<and>
            results (generateTests fs res st) = results st \<and>
            excelData (generateTests fs res st) = excelData st \<and>
            testScripts (generateTests fs res st) = testScripts st \<and>
            testResults (fst (page_generate res (page\<lparr>uploadedFiles := fs\<rparr>, st)))
              = testResults page) \<and>
         (\<forall>td. success_with_data res = Some td \<longrightarrow>
            status (generateTests fs res st) = Completed \<and>
            generated (generateTests fs res st) = generated st @ [td] \<and>
            results (generateTests fs res st) = Some td \<and>
            excelData (generateTests fs res st)
              = Some (case test_cases td of None \<Rightarrow> [] | Some tcs \<Rightarrow> tcs)) \<and>
         (status (generateTests fs res st) = Failed \<longleftrightarrow> success_with_data res = None) \<and>
         (success_with_data res = None \<longleftrightarrow>
            \<not> (\<exists>statusText r td. res = HttpResponse True statusText (Some r) \<and>
                 resp_status r = Some ''success'' \<and> resp_data r = Some td))"
proof -
  have fail: "status (generateTests fs res st) = Failed \<and>
            currentStep (generateTests fs res st) = ''Generation failed'' \<and>
            generated (generateTests fs res st) = generated st \<and>
            results (generateTests fs res st) = results st \<and>
            excelData (generateTests fs res st) = excelData st \<and>
            testScripts (generateTests fs res st) = testScripts st \<and>
            testResults (fst (page_generate res (page\<lparr>uploadedFiles := fs\<rparr>, st)))
              = testResults page"
    if "success_with_data res = None"
  proof -
    from generateTests_failure [OF assms that, of st] obtain msg where
      "generateTests fs res st = generation_failed msg (fst (generateTests_start fs st))" ..
    then show ?thesis
      using assms
      by (simp add: generation_failed_def generateTests_start_def page_generate_def Let_def)
  qed
  have ok: "status (generateTests fs res st) = Completed \<and>
            generated (generateTests fs res st) = generated st @ [td] \<and>
            results (generateTests fs res st) = Some td \<and>
            excelData (generateTests fs res st)
              = Some (case test_cases td of None \<Rightarrow> [] | Some tcs \<Rightarrow> tcs)"
    if "success_with_data res = Some td" for td
    using assms by (simp add: generateTests_success [OF assms that] generateTests_start_def)
  have told: "status (generateTests fs res st) = Failed \<longleftrightarrow> success_with_data res = None"
  proof (cases "success_with_data res")
    case None
    with fail show ?thesis by simp
  next
    case (Some td)
    with ok [OF Some] show ?thesis by simp
  qed
  have "success_with_data res \<noteq> None \<longleftrightarrow>
            (\<exists>statusText r td. res = HttpResponse True statusText (Some r) \<and>
                 resp_status r = Some ''success'' \<and> resp_data r = Some td)"
    using success_with_data_iff [of res] by auto
  then have what: "success_with_data res = None \<longleftrightarrow>
            \<not> (\<exists>statusText r td. res = HttpResponse True statusText (Some r) \<and>
                 resp_status r = Some ''success'' \<and> resp_data r = Some td)"
    by blast
  from fail ok told what show ?thesis by blast
qed

theorem failure_reported_witness:
  "[\<lparr>file_id = ''k3j9x'', name = ''a.c'', fsize = 1, ftype = Source, content = Some ''x''\<rparr>] \<noteq> [] \<and>
   success_with_data (HttpResponse False ''Internal Server Error'' None) = None \<and>
   status (generateTests
     [\<lparr>file_id = ''k3j9x'', name = ''a.c'', fsize = 1, ftype = Source, content = Some ''x''\<rparr>]
     (HttpResponse False ''Internal Server Error'' None) (api_comp api_initial)) = Failed \<and>
   generated (generateTests
     [\<lparr>file_id = ''k3j9x'', name = ''a.c'', fsize = 1, ftype = Source, content = Some ''x''\<rparr>]
     (HttpResponse False ''Internal Server Error'' None) (api_comp api_initial)) = [] \<and>
   status (generateTests
     [\<lparr>file_id = ''k3j9x'', name = ''a.c'', fsize = 1, ftype = Source, content = Some ''x''\<rparr>]
     (HttpResponse True ''OK'' (Some
        \<lparr>resp_status = Some ''success'',
         resp_data = Some \<lparr>test_cases = Some [], test_runner_script = None,
                            makefile_content = None, csv_content = None\<rparr>,
         resp_message = None\<rparr>))
     (api_comp api_initial)) = Completed \<and>
   generated (generateTests
     [\<lparr>file_id = ''k3j9x'', name = ''a.c'', fsize = 1, ftype = Source, content = Some ''x''\<rparr>]
     (HttpResponse True ''OK'' (Some
        \<lparr>resp_status = Some ''success'',
         resp_data = Some \<lparr>test_cases = Some [], test_runner_script = None,
                            makefile_content = None, csv_content = None\<rparr>,
         resp_message = None\<rparr>))
     (api_comp api_initial))
     = [\<lparr>test_cases = Some [], test_runner_script = None,
          makefile_content = None, csv_content = None\<rparr>]"
proof -
  let ?fs = "[\<lparr>file_id = ''k3j9x'', name = ''a.c'', fsize = 1, ftype = Source, content = Some ''x''\<rparr>]"
  let ?bad = "HttpResponse False ''Internal Server Error'' None"
  let ?td = "\<lparr>test_cases = Some [], test_runner_script = None,
                            makefile_content = None, csv_content = None\<rparr>"
  let ?good = "HttpResponse True ''OK'' (Some
        \<lparr>resp_status = Some ''success'', resp_data = Some ?td, resp_message = None\<rparr>)"
  have files: "?fs \<noteq> []"
    by simp
  have bad: "success_with_data ?bad = None"
    by (simp add: success_with_data_def generateTestsAPI_def)
  have good: "success_with_data ?good = Some ?td"
    by (simp add: success_with_data_def generateTestsAPI_def)
  have start: "generated (api_comp api_initial) = []"
    by (simp add: api_initial_def)
  from failure_reported [OF files, of ?bad "api_comp api_initial"] bad start
  have failed: "status (generateTests ?fs ?bad (api_comp api_initial)) = Failed \<and>
                generated (generateTests ?fs ?bad (api_comp api_initial)) = []"
    by simp
  from failure_reported [OF files, of ?good "api_comp api_initial"] good start
  have completed: "status (generateTests ?fs ?good (api_comp api_initial)) = Completed \<and>
                   generated (generateTests ?fs ?good (api_comp api_initial)) = [?td]"
    by simp
  from files bad failed completed show ?thesis
    by (intro conjI) simp_all
qed

text \<open>
  C7. The body posted to the test-generation endpoint is \<open>fileData\<close>: one record per
  uploaded file, in the same order, with the file's name and size, and with its content,
  or the empty string when the content is absent. A run with no files posts nothing.
  The run leaves the page's \<open>uploadedFiles\<close> as they were.
\<close>

theorem request_body:
  "length (fileData fs) = length fs \<and>
   (\<forall>k < length fs.
      filename (fileData fs ! k) = name (fs ! k) \<and>
      fd_size (fileData fs ! k) = fsize (fs ! k) \<and>
      fd_content (fileData fs ! k) = (case content (fs ! k) of None \<Rightarrow> [] | Some c \<Rightarrow> c)) \<and>
   requests (generateTests fs res st) =
     (if fs = [] then requests st else requests st @ [fileData fs]) \<and>
   uploadedFiles (fst (page_generate res (page, st))) = uploadedFiles page"
proof -
  have "or_default x [] = (case x of None \<Rightarrow> [] | Some c \<Rightarrow> c)" for x
    by (simp add: or_default_def split: option.splits)
  then have fields: "\<forall>k < length fs.
      filename (fileData fs ! k) = name (fs ! k) \<and>
      fd_size (fileData fs ! k) = fsize (fs ! k) \<and>
      fd_content (fileData fs ! k) = (case content (fs ! k) of None \<Rightarrow> [] | Some c \<Rightarrow> c)"
    by (simp add: fileData_def)
  have same: "uploadedFiles (foldl handleTestGenerated p rs) = uploadedFiles p" for p rs
    by (induction rs arbitrary: p) (simp_all add: handleTestGenerated_def)
  have "uploadedFiles (fst (page_generate res (page, st))) = uploadedFiles page"
    by (simp add: page_generate_def Let_def same)
  with fields show ?thesis
    by (simp add: requests_generateTests fileData_def)
qed

theorem request_body_witness:
  "(1::nat) < length [\<lparr>file_id = ''k3j9x'', name = ''a.c'', fsize = 7, ftype = Source, content = Some ''int x;''\<rparr>,
        \<lparr>file_id = ''q0w8e'', name = ''b.h'', fsize = 2, ftype = Header, content = None\<rparr>] \<and>
   requests (generateTests
       [\<lparr>file_id = ''k3j9x'', name = ''a.c'', fsize = 7, ftype = Source, content = Some ''int x;''\<rparr>,
        \<lparr>file_id = ''q0w8e'', name = ''b.h'', fsize = 2, ftype = Header, content = None\<rparr>]
       (NetworkError ''Failed to fetch'') (api_comp api_initial))
     = [[\<lparr>filename = ''a.c'', fd_content = ''int x;'', fd_size = 7\<rparr>,
         \<lparr>filename = ''b.h'', fd_content = [], fd_size = 2\<rparr>]]"
  using request_body [of
       "[\<lparr>file_id = ''k3j9x'', name = ''a.c'', fsize = 7, ftype = Source, content = Some ''int x;''\<rparr>,
        \<lparr>file_id = ''q0w8e'', name = ''b.h'', fsize = 2, ftype = Header, content = None\<rparr>]"
       "NetworkError ''Failed to fetch''" "api_comp api_initial"]
  by (simp add: api_initial_def fileData_def or_default_def)

text \<open>
  The report table of the backend revision. After a success whose data carries the test
  cases \<open>rows\<close>, the table has one row per test case, and the Test ID cell of the row
  at position \<open>i\<close> (counted from zero) is \<open>TC_\<close> followed by the decimal numeral of
  \<open>i + 1\<close>, padded with zeros on the left to three digits. The cells depend on the
  number of rows only; the test cases themselves are stored and handed on as received.
\<close>

lemma report_table_ids:
  assumes "fs \<noteq> []" and "success_with_data res = Some td" and "test_cases td = Some rows"
  shows "excelTable (generateTests fs res st) = Some (excelRows rows) \<and>
         length (excelRows rows) = length rows \<and>
         (\<forall>i < length rows.
            cell_id (excelRows rows ! i)
              = ''TC_'' @ replicate (3 - length (String_nat (i + 1))) CHR ''0'' @ String_nat (i + 1) \<and>
            id_number (cell_id (excelRows rows ! i)) = i + 1) \<and>
         (\<forall>rows'. length rows' = length rows \<longrightarrow>
            map cell_id (excelRows rows') = map cell_id (excelRows rows)) \<and>
         (\<forall>i j. i < j \<and> j < length rows \<longrightarrow>
            id_number (cell_id (excelRows rows ! i)) < id_number (cell_id (excelRows rows ! j))) \<and>
         distinct (map cell_id (excelRows rows)) \<and>
         (rows \<noteq> [] \<longrightarrow> cell_id (excelRows rows ! 0) = ''TC_001'')"
proof -
  have table: "excelTable (generateTests fs res st) = Some (excelRows rows)"
    using assms
    by (simp add: generateTests_success [OF assms(1,2)] excelTable_def generateTests_start_def)
  have ids: "\<forall>i < length rows.
            cell_id (excelRows rows ! i)
              = ''TC_'' @ replicate (3 - length (String_nat (i + 1))) CHR ''0'' @ String_nat (i + 1) \<and>
            id_number (cell_id (excelRows rows ! i)) = i + 1"
  proof (intro allI impI)
    fix i
    assume "i < length rows"
    then have "cell_id (excelRows rows ! i) = test_id i"
      by (rule cell_id_excelRows)
    then show "cell_id (excelRows rows ! i)
              = ''TC_'' @ replicate (3 - length (String_nat (i + 1))) CHR ''0'' @ String_nat (i + 1) \<and>
            id_number (cell_id (excelRows rows ! i)) = i + 1"
      by (metis test_id_eq id_number_test_id)
  qed
  have indep: "\<forall>rows'. length rows' = length rows \<longrightarrow>
            map cell_id (excelRows rows') = map cell_id (excelRows rows)"
    by (simp add: map_cell_id_excelRows)
  have incr: "\<forall>i j. i < j \<and> j < length rows \<longrightarrow>
            id_number (cell_id (excelRows rows ! i)) < id_number (cell_id (excelRows rows ! j))"
    by (simp add: cell_id_excelRows id_number_test_id)
  have dist: "distinct (map cell_id (excelRows rows))"
    by (simp only: map_cell_id_excelRows distinct_test_ids)
  have first: "rows \<noteq> [] \<longrightarrow> cell_id (excelRows rows ! 0) = ''TC_001''"
    by (simp add: cell_id_excelRows test_id_first)
  have len: "length (excelRows rows) = length rows"
    by (rule length_excelRows)
  from table len ids indep incr dist first show ?thesis
    by blast
qed

lemma report_table_ids_example:
  "[\<lparr>file_id = ''k3j9x'', name = ''a.c'', fsize = 1, ftype = Source, content = Some ''x''\<rparr>] \<noteq> [] \<and>
   success_with_data (HttpResponse True ''OK'' (Some
     \<lparr>resp_status = Some ''success'',
      resp_data = Some
        \<lparr>test_cases = Some
           [\<lparr>row_id = Some ''TC_007'', row_function_name = Some ''test_add'', row_description = None,
             row_expected_result = None, row_test_code = Some ''TEST_ASSERT(1);''\<rparr>,
            \<lparr>row_id = Some ''TC_007'', row_function_name = None, row_description = Some ''overflow'',
             row_expected_result = Some ''0'', row_test_code = None\<rparr>],
         test_runner_script = None, makefile_content = None, csv_content = None\<rparr>,
      resp_message = None\<rparr>)) \<noteq> None \<and>
   map_option (map cell_id) (excelTable (generateTests
     [\<lparr>file_id = ''k3j9x'', name = ''a.c'', fsize = 1, ftype = Source, content = Some ''x''\<rparr>]
     (HttpResponse True ''OK'' (Some
     \<lparr>resp_status = Some ''success'',
      resp_data = Some
        \<lparr>test_cases = Some
           [\<lparr>row_id = Some ''TC_007'', row_function_name = Some ''test_add'', row_description = None,
             row_expected_result = None, row_test_code = Some ''TEST_ASSERT(1);''\<rparr>,
            \<lparr>row_id = Some ''TC_007'', row_function_name = None, row_description = Some ''overflow'',
             row_expected_result = Some ''0'', row_test_code = None\<rparr>],
         test_runner_script = None, makefile_content = None, csv_content = None\<rparr>,
      resp_message = None\<rparr>))
     (api_comp api_initial))) = Some [''TC_001'', ''TC_002'']"
proof -
  let ?fs = "[\<lparr>file_id = ''k3j9x'', name = ''a.c'', fsize = 1, ftype = Source, content = Some ''x''\<rparr>]"
  let ?rows = "[\<lparr>row_id = Some ''TC_007'', row_function_name = Some ''test_add'', row_description = None,
             row_expected_result = None, row_test_code = Some ''TEST_ASSERT(1);''\<rparr>,
            \<lparr>row_id = Some ''TC_007'', row_function_name = None, row_description = Some ''overflow'',
             row_expected_result = Some ''0'', row_test_code = None\<rparr>]"
  let ?td = "\<lparr>test_cases = Some ?rows,
         test_runner_script = None, makefile_content = None, csv_content = None\<rparr>"
  let ?res = "HttpResponse True ''OK'' (Some
     \<lparr>resp_status = Some ''success'', resp_data = Some ?td, resp_message = None\<rparr>)"
  have files: "?fs \<noteq> []"
    by simp
  have reply: "success_with_data ?res = Some ?td"
    by (simp add: success_with_data_def generateTestsAPI_def)
  have cases: "test_cases ?td = Some ?rows"
    by simp
  have cells: "map cell_id (excelRows ?rows) = [''TC_001'', ''TC_002'']"
    by code_simp
  from report_table_ids [OF files reply cases, of "api_comp api_initial"]
  have "excelTable (generateTests ?fs ?res (api_comp api_initial)) = Some (excelRows ?rows)"
    by (rule conjunct1)
  with reply cells show ?thesis
    by simp
qed

subsection \<open>Facts about the Generate button\<close>

lemma generate_disabled_iff:
  "generate_disabled s \<longleftrightarrow> s = Generating \<or> s = Parsing \<or> s = Running"
  by (cases s) (simp_all add: generate_disabled_def)

lemma generate_enabled_iff:
  "\<not> generate_disabled s \<longleftrightarrow> s = Idle \<or> s = Completed \<or> s = Failed"
  by (cases s) (simp_all add: generate_disabled_def)

lemma click_disabled_v:
  "generate_disabled (status (comp sys)) \<Longrightarrow> mock_fire steps mock sys (Click fs) = sys"
  by simp

lemma click_disabled_api:
  "generate_disabled (status (api_comp sys)) \<Longrightarrow> api_fire sys (ApiClick fs) = sys"
  by simp

lemma v2_inv_fire: "v2_inv sys \<Longrightarrow> v2_inv (mock_fire steps_v2 mock sys ev)"
proof (cases ev)
  case (Click fs)
  assume "v2_inv sys"
  then show ?thesis
    unfolding Click v2_inv_def
    by (auto simp: generate_disabled_def mock_start_def mock_resume_def enter_step_def
        steps_v2_def)
next
  case (Timeout i)
  assume "v2_inv sys"
  then show ?thesis
    unfolding Timeout v2_inv_def
    by (auto simp: generate_disabled_def mock_resume_def enter_step_def steps_v2_def)
qed

lemma v2_inv_run: "v2_inv sys \<Longrightarrow> v2_inv (mock_run steps_v2 mock sys evs)"
  unfolding mock_run_def
  by (induction evs arbitrary: sys) (simp_all add: v2_inv_fire)

lemma v2_exclusive:
  "length (runs (mock_run steps_v2 mock mock_initial evs)) \<le> 1 \<and>
   (runs (mock_run steps_v2 mock mock_initial evs) \<noteq> [] \<longrightarrow>
      generate_disabled (status (comp (mock_run steps_v2 mock mock_initial evs))))"
proof -
  have "v2_inv (mock_initial :: 'a MockSystem)"
    by (simp add: v2_inv_def mock_initial_def initial_def generate_disabled_def)
  then have "v2_inv (mock_run steps_v2 mock mock_initial evs)"
    by (rule v2_inv_run)
  then show ?thesis
    by (auto simp: v2_inv_def generate_disabled_def)
qed

lemma status_resume:
  "status (generateTests_resume res st) = Completed \<or>
   status (generateTests_resume res st) = Failed"
  by (simp add: generateTests_resume_def generation_failed_def split: sum.splits option.splits)

lemma api_inv_fire: "api_inv sys \<Longrightarrow> api_inv (api_fire sys ev)"
proof (cases ev)
  case (ApiClick fs)
  assume "api_inv sys"
  then show ?thesis
    unfolding ApiClick api_inv_def
    by (auto simp: generate_disabled_def generateTests_start_def)
next
  case (Settled res)
  assume "api_inv sys"
  with status_resume [of res "api_comp sys"] show ?thesis
    unfolding Settled api_inv_def
    by (auto simp: generate_disabled_def)
qed

lemma api_inv_run: "api_inv sys \<Longrightarrow> api_inv (api_run sys evs)"
  unfolding api_run_def
  by (induction evs arbitrary: sys) (simp_all add: api_inv_fire)

lemma api_exclusive:
  "awaiting (api_run api_initial evs) \<le> 1 \<and>
   (awaiting (api_run api_initial evs) \<noteq> 0 \<longrightarrow>
      generate_disabled (status (api_comp (api_run api_initial evs))))"
proof -
  have "api_inv api_initial"
    by (simp add: api_inv_def api_initial_def generate_disabled_def)
  then have "api_inv (api_run api_initial evs)"
    by (rule api_inv_run)
  then show ?thesis
    by (auto simp: api_inv_def generate_disabled_def)
qed

text \<open>
  C9. In the first simulating revision the fourth step carries the id \<open>completed\<close>,
  so the run sets the status to \<open>completed\<close> before it has finished. After a click and
  three timers the run is still in flight (it has entered four steps and has yet to
  store its results), the status is \<open>completed\<close> and the button is enabled; a second
  click starts a second run beside the first.
\<close>

theorem second_run_started_v1:
  "runs (mock_run steps_v1 mockResults mock_initial
          [Click [\<lparr>file_id = ''k3j9x'', name = ''a.c'', fsize = 1, ftype = Source, content = Some ''x''\<rparr>],
           Timeout 0, Timeout 0, Timeout 0]) = [4] \<and>
   status (comp (mock_run steps_v1 mockResults mock_initial
          [Click [\<lparr>file_id = ''k3j9x'', name = ''a.c'', fsize = 1, ftype = Source, content = Some ''x''\<rparr>],
           Timeout 0, Timeout 0, Timeout 0])) = Completed \<and>
   generate_disabled (status (comp (mock_run steps_v1 mockResults mock_initial
          [Click [\<lparr>file_id = ''k3j9x'', name = ''a.c'', fsize = 1, ftype = Source, content = Some ''x''\<rparr>],
           Timeout 0, Timeout 0, Timeout 0]))) = False \<and>
   runs (mock_run steps_v1 mockResults mock_initial
          [Click [\<lparr>file_id = ''k3j9x'', name = ''a.c'', fsize = 1, ftype = Source, content = Some ''x''\<rparr>],
           Timeout 0, Timeout 0, Timeout 0,
           Click [\<lparr>file_id = ''k3j9x'', name = ''a.c'', fsize = 1, ftype = Source, content = Some ''x''\<rparr>]])
     = [4, 1]"
  by (simp add: mock_run_def mock_initial_def initial_def mock_start_def mock_resume_def
      enter_step_def steps_v1_def generate_disabled_def)

subsection \<open>Facts about the parsers\<close>

lemma missing_fields_Nil:
  "missing_fields raw = [] \<longleftrightarrow> field raw ''function_name'' \<noteq> [] \<and> field raw ''test_code'' \<noteq> []"
  by (simp add: missing_fields_def)

lemma parse_from_records:
  "fst (parse_from cfg i raws) =
     map (to_record cfg)
       (filter (\<lambda>raw. field raw ''function_name'' \<noteq> [] \<and> field raw ''test_code'' \<noteq> []) raws)"
proof (induction raws arbitrary: i)
  case Nil
  show ?case by simp
next
  case (Cons raw raws)
  from Cons [of "Suc i"] show ?case
    by (cases "parse_from cfg (Suc i) raws")
      (simp add: parse_record_def missing_fields_Nil)
qed

lemma parse_from_issues:
  "snd (parse_from cfg i raws) =
     map (\<lambda>p. DroppedRecord (fst p) (missing_fields (snd p)))
       (filter (\<lambda>p. field (snd p) ''function_name'' = [] \<or> field (snd p) ''test_code'' = [])
          (enumerate i raws))"
proof (induction raws arbitrary: i)
  case Nil
  show ?case by simp
next
  case (Cons raw raws)
  from Cons [of "Suc i"] show ?case
    by (cases "parse_from cfg (Suc i) raws")
      (auto simp: parse_record_def missing_fields_Nil)
qed

lemma parse_records: "fst (parse cfg c) = fst (parse_from cfg 0 (encountered cfg c))"
  by (cases c) (simp_all split: prod.splits)

lemma parse_dropped:
  "filter is_dropped (snd (parse cfg c)) = snd (parse_from cfg 0 (encountered cfg c))"
proof -
  have all: "filter is_dropped (snd (parse_from cfg i raws)) = snd (parse_from cfg i raws)"
    for i raws
    by (simp add: parse_from_issues filter_map o_def)
  have none: "filter is_dropped (low_confidence cfg bodies) = []" for bodies
    by (simp add: low_confidence_def filter_map o_def)
  show ?thesis
  proof (cases c)
    case (StructuredBlock raws)
    then show ?thesis by (simp add: all)
  next
    case (TabularBlock headers rows)
    then show ?thesis by (simp add: all)
  next
    case (CodeBlock bodies)
    obtain records issues
      where p: "parse_from cfg 0 (map (body_to_raw cfg) (enumerate 0 bodies)) = (records, issues)"
      by (cases "parse_from cfg 0 (map (body_to_raw cfg) (enumerate 0 bodies))")
    from all [of 0 "map (body_to_raw cfg) (enumerate 0 bodies)"] p
    have "filter is_dropped issues = issues"
      by simp
    with CodeBlock p show ?thesis
      by (simp add: none)
  qed
qed

lemma to_record_required:
  "function_name (to_record cfg raw) = field raw ''function_name'' \<and>
   test_code (to_record cfg raw) = field raw ''test_code'' \<and>
   description (to_record cfg raw) = field raw ''description''"
  by (simp add: to_record_def)

lemma length_filter_split:
  "length (filter P xs) + length (filter (\<lambda>x. \<not> P x) xs) = length xs"
  by (induction xs) simp_all

lemma length_filter_enumerate:
  "length (filter (\<lambda>p. Q (snd p)) (enumerate i xs)) = length (filter Q xs)"
  by (induction xs arbitrary: i) simp_all

text \<open>
  C5. Whatever the kind of the candidate, every record the parser returns has a
  non-empty \<open>function_name\<close> and a non-empty \<open>test_code\<close>. The records returned are
  exactly those built from the encountered records that have both fields, in their
  order, whatever their neighbours lack; every other encountered record is reported as
  dropped, with its position and the fields it lacks, so that returned and dropped
  records add up to the records encountered. A record without a \<open>description\<close> gets
  the empty description.
\<close>

theorem parse_drops_incomplete:
  assumes "parse cfg c = (records, issues)"
  shows "(\<forall>r \<in> set records. test_code r \<noteq> [] \<and> function_name r \<noteq> []) \<and>
         records =
           map (to_record cfg)
             (filter (\<lambda>raw. field raw ''function_name'' \<noteq> [] \<and> field raw ''test_code'' \<noteq> [])
                (encountered cfg c)) \<and>
         filter is_dropped issues =
           map (\<lambda>p. DroppedRecord (fst p) (missing_fields (snd p)))
             (filter (\<lambda>p. field (snd p) ''function_name'' = [] \<or> field (snd p) ''test_code'' = [])
                (enumerate 0 (encountered cfg c))) \<and>
         length records + length (filter is_dropped issues) = length (encountered cfg c) \<and>
         (\<forall>raw \<in> set (encountered cfg c).
            map_of raw ''description'' = None \<longrightarrow> description (to_record cfg raw) = [])"
proof -
  let ?ok = "\<lambda>raw. field raw ''function_name'' \<noteq> [] \<and> field raw ''test_code'' \<noteq> []"
  from assms have recs: "records = map (to_record cfg) (filter ?ok (encountered cfg c))"
    using parse_records [of cfg c] by (simp add: parse_from_records)
  from assms have drops: "filter is_dropped issues =
           map (\<lambda>p. DroppedRecord (fst p) (missing_fields (snd p)))
             (filter (\<lambda>p. field (snd p) ''function_name'' = [] \<or> field (snd p) ''test_code'' = [])
                (enumerate 0 (encountered cfg c)))"
    using parse_dropped [of cfg c] by (simp add: parse_from_issues)
  from recs have nonempty: "\<forall>r \<in> set records. test_code r \<noteq> [] \<and> function_name r \<noteq> []"
    by (auto simp: to_record_required)
  have "length (filter is_dropped issues) = length (filter (\<lambda>raw. \<not> ?ok raw) (encountered cfg c))"
    using length_filter_enumerate [of "\<lambda>raw. \<not> ?ok raw" 0 "encountered cfg c"]
    by (simp add: drops)
  with recs have count: "length records + length (filter is_dropped issues) = length (encountered cfg c)"
    using length_filter_split [of ?ok "encountered cfg c"] by simp
  have descr: "\<forall>raw \<in> set (encountered cfg c).
            map_of raw ''description'' = None \<longrightarrow> description (to_record cfg raw) = []"
    by (simp add: to_record_def field_def)
  from nonempty recs drops count descr show ?thesis
    by blast
qed

theorem parse_drops_incomplete_witness:
  "parse \<lparr>default_category = Positive, infer_name = (\<lambda>body. None),
          placeholder_name = (\<lambda>i. ''test_'' @ String_nat i)\<rparr>
     (StructuredBlock
        [[(''function_name'', ''test_add''), (''test_code'', ''TEST_ASSERT(1);'')],
         [(''function_name'', ''test_sub''), (''description'', ''no code'')],
         [(''test_code'', ''TEST_ASSERT(2);''), (''function_name'', ''test_mul''),
          (''category'', ''Boundary''), (''extra'', ''x'')]])
   = ([\<lparr>tc_id = [], function_name = ''test_add'', description = [], input_data = [],
        expected_output = [], category = Positive, test_code = ''TEST_ASSERT(1);''\<rparr>,
       \<lparr>tc_id = [], function_name = ''test_mul'', description = [], input_data = [],
        expected_output = [], category = Boundary, test_code = ''TEST_ASSERT(2);''\<rparr>],
      [DroppedRecord 1 [''test_code'']])"
proof -
  let ?cfg = "\<lparr>default_category = Positive, infer_name = (\<lambda>body. None),
          placeholder_name = (\<lambda>i. ''test_'' @ String_nat i)\<rparr>"
  let ?c = "StructuredBlock
        [[(''function_name'', ''test_add''), (''test_code'', ''TEST_ASSERT(1);'')],
         [(''function_name'', ''test_sub''), (''description'', ''no code'')],
         [(''test_code'', ''TEST_ASSERT(2);''), (''function_name'', ''test_mul''),
          (''category'', ''Boundary''), (''extra'', ''x'')]]"
  obtain records issues where p: "parse ?cfg ?c = (records, issues)"
    by (cases "parse ?cfg ?c")
  have records_value: "map (to_record ?cfg)
             (filter (\<lambda>raw. field raw ''function_name'' \<noteq> [] \<and> field raw ''test_code'' \<noteq> [])
                (encountered ?cfg ?c)) =
      [\<lparr>tc_id = [], function_name = ''test_add'', description = [], input_data = [],
        expected_output = [], category = Positive, test_code = ''TEST_ASSERT(1);''\<rparr>,
       \<lparr>tc_id = [], function_name = ''test_mul'', description = [], input_data = [],
        expected_output = [], category = Boundary, test_code = ''TEST_ASSERT(2);''\<rparr>]"
    by code_simp
  have issues_value: "snd (parse ?cfg ?c) = [DroppedRecord 1 [''test_code'']]"
    by code_simp
  from parse_drops_incomplete [OF p]
  have "records =
           map (to_record ?cfg)
             (filter (\<lambda>raw. field raw ''function_name'' \<noteq> [] \<and> field raw ''test_code'' \<noteq> [])
                (encountered ?cfg ?c))"
    by blast
  with records_value p issues_value show ?thesis
    by simp
qed

subsection \<open>Facts about the reconciler\<close>

lemma accumulate_concat: "accumulate acc candidates = foldl accept acc (concat candidates)"
  unfolding accumulate_def
  by (induction candidates arbitrary: acc) simp_all

lemma accept_prefix: "prefix acc (foldl accept acc rs)"
proof (induction rs arbitrary: acc)
  case Nil
  show ?case by simp
next
  case (Cons r rs)
  have "prefix acc (accept acc r)"
    by (simp add: accept_def)
  also have "prefix (accept acc r) (foldl accept (accept acc r) rs)"
    by (rule Cons)
  finally show ?case by simp
qed

lemma accept_distinct:
  "distinct (map dedup_key acc) \<Longrightarrow> distinct (map dedup_key (foldl accept acc rs))"
  by (induction rs arbitrary: acc) (simp_all add: accept_def)

lemma find_app:
  "find P (xs @ ys) = (case find P xs of None \<Rightarrow> find P ys | Some x \<Rightarrow> Some x)"
  by (induction xs) simp_all

lemma accept_find:
  "find (\<lambda>x. dedup_key x = k) (foldl accept acc rs) = find (\<lambda>x. dedup_key x = k) (acc @ rs)"
proof (induction rs arbitrary: acc)
  case Nil
  show ?case by simp
next
  case (Cons r rs)
  have "find (\<lambda>x. dedup_key x = k) (accept acc r @ rs)
          = find (\<lambda>x. dedup_key x = k) (acc @ r # rs)"
  proof (cases "dedup_key r \<in> set (map dedup_key acc)")
    case True
    then obtain a where a: "a \<in> set acc" "dedup_key a = dedup_key r"
      by auto
    show ?thesis
    proof (cases "dedup_key r = k")
      case True
      with a have "find (\<lambda>x. dedup_key x = k) acc \<noteq> None"
        by (auto simp: find_None_iff)
      then show ?thesis
        by (auto simp: find_app accept_def)
    next
      case False
      with \<open>dedup_key r \<in> set (map dedup_key acc)\<close> show ?thesis
        by (simp add: find_app accept_def split: option.splits)
    qed
  next
    case False
    then show ?thesis
      by (simp add: accept_def)
  qed
  with Cons [of "accept acc r"] show ?case
    by simp
qed

lemma one_per_key:
  "distinct (map f xs) \<Longrightarrow> x \<in> set xs \<Longrightarrow> length (filter (\<lambda>y. f y = f x) xs) = 1"
proof (induction xs)
  case Nil
  then show ?case by simp
next
  case (Cons y ys)
  show ?case
  proof (cases "f y = f x")
    case True
    with Cons.prems have "filter (\<lambda>z. f z = f x) ys = []"
      by (auto simp: filter_empty_conv image_iff)
    with True show ?thesis by simp
  next
    case False
    with Cons show ?thesis by auto
  qed
qed

lemma length_assign_ids: "length (assign_ids rs) = length rs"
  by (simp add: assign_ids_def)

lemma assign_ids_nth: "i < length rs \<Longrightarrow> assign_ids rs ! i = (rs ! i)\<lparr>tc_id := test_id i\<rparr>"
  by (simp add: assign_ids_def nth_enumerate_eq)

lemma assign_ids_erased:
  "map (\<lambda>r. r\<lparr>tc_id := []\<rparr>) (assign_ids rs) = map (\<lambda>r. r\<lparr>tc_id := []\<rparr>) rs"
  by (rule nth_equalityI) (simp_all add: length_assign_ids assign_ids_nth)

lemma assign_ids_keys: "map dedup_key (assign_ids rs) = map dedup_key rs"
  by (rule nth_equalityI) (simp_all add: length_assign_ids assign_ids_nth dedup_key_def)

lemma assign_ids_names: "map function_name (assign_ids rs) = map function_name rs"
  by (rule nth_equalityI) (simp_all add: length_assign_ids assign_ids_nth)

lemma reconcile_Inr:
  "reconcile runner build areas candidates = Inr b \<Longrightarrow>
     b = make_bundle runner build areas (assign_ids (accumulate [] candidates))"
  by (simp add: reconcile_def Let_def split: if_splits)

text \<open>
  C2. A record is added to the accumulated list exactly when no accepted record has its
  dedup key, and is otherwise left out with the list unchanged. For two candidates in
  priority order, the final list extends what the first candidate gave, holds every
  dedup key once, and for a key found in both candidates the record kept is the first
  candidate's; a key of the second candidate that the first lacks is filled in by the
  second candidate's record. The bundle's test cases are that list, with only the IDs
  set.
\<close>

theorem lower_priority_fills_gaps:
  "(accept acc r = acc @ [r] \<longleftrightarrow> (\<forall>a \<in> set acc. dedup_key a \<noteq> dedup_key r)) \<and>
   (accept acc r = acc \<longleftrightarrow> (\<exists>a \<in> set acc. dedup_key a = dedup_key r)) \<and>
   accumulate [] [hi, lo] = foldl accept (accumulate [] [hi]) lo \<and>
   prefix (accumulate [] [hi]) (accumulate [] [hi, lo]) \<and>
   distinct (map dedup_key (accumulate [] [hi, lo])) \<and>
   (\<forall>h \<in> set hi. \<forall>l \<in> set lo. dedup_key l = dedup_key h \<longrightarrow>
      length (filter (\<lambda>x. dedup_key x = dedup_key l) (accumulate [] [hi, lo])) = 1 \<and>
      find (\<lambda>x. dedup_key x = dedup_key l) (accumulate [] [hi, lo])
        = find (\<lambda>x. dedup_key x = dedup_key l) hi) \<and>
   (\<forall>l \<in> set lo. (\<forall>h \<in> set hi. dedup_key h \<noteq> dedup_key l) \<longrightarrow>
      length (filter (\<lambda>x. dedup_key x = dedup_key l) (accumulate [] [hi, lo])) = 1 \<and>
      find (\<lambda>x. dedup_key x = dedup_key l) (accumulate [] [hi, lo])
        = find (\<lambda>x. dedup_key x = dedup_key l) lo) \<and>
   (\<forall>b. reconcile runner build areas [hi, lo] = Inr b \<longrightarrow>
      map (\<lambda>x. x\<lparr>tc_id := []\<rparr>) (bundle_test_cases b)
        = map (\<lambda>x. x\<lparr>tc_id := []\<rparr>) (accumulate [] [hi, lo]) \<and>
      map dedup_key (bundle_test_cases b) = map dedup_key (accumulate [] [hi, lo]))"
proof -
  let ?final = "accumulate [] [hi, lo]"
  have step1: "accept acc r = acc @ [r] \<longleftrightarrow> (\<forall>a \<in> set acc. dedup_key a \<noteq> dedup_key r)"
    by (auto simp: accept_def image_iff)
  have step2: "accept acc r = acc \<longleftrightarrow> (\<exists>a \<in> set acc. dedup_key a = dedup_key r)"
    by (auto simp: accept_def image_iff)
  have two: "?final = foldl accept (accumulate [] [hi]) lo"
    by (simp add: accumulate_def)
  have pre: "prefix (accumulate [] [hi]) ?final"
    unfolding two by (rule accept_prefix)
  have dist: "distinct (map dedup_key ?final)"
    unfolding accumulate_concat by (rule accept_distinct) simp
  have found: "find (\<lambda>x. dedup_key x = k) ?final = find (\<lambda>x. dedup_key x = k) (hi @ lo)" for k
    using accept_find [of k "[]" "hi @ lo"] by (simp add: accumulate_concat)
  have once: "length (filter (\<lambda>x. dedup_key x = k) ?final) = 1"
    if "find (\<lambda>x. dedup_key x = k) (hi @ lo) \<noteq> None" for k
  proof -
    from that found [of k] obtain x where "find (\<lambda>x. dedup_key x = k) ?final = Some x"
      by auto
    then have "x \<in> set ?final" "dedup_key x = k"
      by (auto simp: find_Some_iff)
    with one_per_key [OF dist, of x] show ?thesis
      by simp
  qed
  have match: "\<forall>h \<in> set hi. \<forall>l \<in> set lo. dedup_key l = dedup_key h \<longrightarrow>
      length (filter (\<lambda>x. dedup_key x = dedup_key l) ?final) = 1 \<and>
      find (\<lambda>x. dedup_key x = dedup_key l) ?final = find (\<lambda>x. dedup_key x = dedup_key l) hi"
  proof (intro ballI impI)
    fix h l
    assume h: "h \<in> set hi" and "l \<in> set lo" and eq: "dedup_key l = dedup_key h"
    from h eq have hit: "find (\<lambda>x. dedup_key x = dedup_key l) hi \<noteq> None"
      by (auto simp: find_None_iff)
    then have "find (\<lambda>x. dedup_key x = dedup_key l) (hi @ lo)
                 = find (\<lambda>x. dedup_key x = dedup_key l) hi"
      by (auto simp: find_app)
    with hit once [of "dedup_key l"] found [of "dedup_key l"]
    show "length (filter (\<lambda>x. dedup_key x = dedup_key l) ?final) = 1 \<and>
      find (\<lambda>x. dedup_key x = dedup_key l) ?final = find (\<lambda>x. dedup_key x = dedup_key l) hi"
      by simp
  qed
  have gap: "\<forall>l \<in> set lo. (\<forall>h \<in> set hi. dedup_key h \<noteq> dedup_key l) \<longrightarrow>
      length (filter (\<lambda>x. dedup_key x = dedup_key l) ?final) = 1 \<and>
      find (\<lambda>x. dedup_key x = dedup_key l) ?final = find (\<lambda>x. dedup_key x = dedup_key l) lo"
  proof (intro ballI impI)
    fix l
    assume l: "l \<in> set lo" and no: "\<forall>h \<in> set hi. dedup_key h \<noteq> dedup_key l"
    from no have miss: "find (\<lambda>x. dedup_key x = dedup_key l) hi = None"
      by (auto simp: find_None_iff)
    from l have hit: "find (\<lambda>x. dedup_key x = dedup_key l) lo \<noteq> None"
      by (auto simp: find_None_iff)
    from miss have "find (\<lambda>x. dedup_key x = dedup_key l) (hi @ lo)
                 = find (\<lambda>x. dedup_key x = dedup_key l) lo"
      by (simp add: find_app)
    with hit once [of "dedup_key l"] found [of "dedup_key l"]
    show "length (filter (\<lambda>x. dedup_key x = dedup_key l) ?final) = 1 \<and>
      find (\<lambda>x. dedup_key x = dedup_key l) ?final = find (\<lambda>x. dedup_key x = dedup_key l) lo"
      by simp
  qed
  have in_bundle: "\<forall>b. reconcile runner build areas [hi, lo] = Inr b \<longrightarrow>
      map (\<lambda>x. x\<lparr>tc_id := []\<rparr>) (bundle_test_cases b) = map (\<lambda>x. x\<lparr>tc_id := []\<rparr>) ?final \<and>
      map dedup_key (bundle_test_cases b) = map dedup_key ?final"
  proof (intro allI impI)
    fix b
    assume "reconcile runner build areas [hi, lo] = Inr b"
    then have "bundle_test_cases b = assign_ids ?final"
      by (auto dest: reconcile_Inr simp: make_bundle_def)
    then show "map (\<lambda>x. x\<lparr>tc_id := []\<rparr>) (bundle_test_cases b) = map (\<lambda>x. x\<lparr>tc_id := []\<rparr>) ?final \<and>
      map dedup_key (bundle_test_cases b) = map dedup_key ?final"
      by (simp add: assign_ids_erased assign_ids_keys)
  qed
  from step1 step2 two pre dist match gap in_bundle show ?thesis
    by blast
qed

theorem lower_priority_fills_gaps_witness:
  "dedup_key
     \<lparr>tc_id = [], function_name = ''Test_Add'', description = ''adds  two numbers'',
      input_data = [], expected_output = [], category = Negative, test_code = ''/* table */''\<rparr>
   = dedup_key
     \<lparr>tc_id = [], function_name = ''test_add'', description = ''Adds two numbers'',
      input_data = ''1, 2'', expected_output = ''3'', category = Positive,
      test_code = ''TEST_ASSERT_EQUAL(3, add(1, 2));''\<rparr> \<and>
   accumulate []
     [[\<lparr>tc_id = [], function_name = ''test_add'', description = ''Adds two numbers'',
        input_data = ''1, 2'', expected_output = ''3'', category = Positive,
        test_code = ''TEST_ASSERT_EQUAL(3, add(1, 2));''\<rparr>],
      [\<lparr>tc_id = [], function_name = ''Test_Add'', description = ''adds  two numbers'',
        input_data = [], expected_output = [], category = Negative, test_code = ''/* table */''\<rparr>,
       \<lparr>tc_id = [], function_name = ''test_sub'', description = [],
        input_data = [], expected_output = [], category = Positive, test_code = ''/* sub */''\<rparr>]]
   = [\<lparr>tc_id = [], function_name = ''test_add'', description = ''Adds two numbers'',
        input_data = ''1, 2'', expected_output = ''3'', category = Positive,
        test_code = ''TEST_ASSERT_EQUAL(3, add(1, 2));''\<rparr>,
      \<lparr>tc_id = [], function_name = ''test_sub'', description = [],
        input_data = [], expected_output = [], category = Positive, test_code = ''/* sub */''\<rparr>] \<and>
   find (\<lambda>x. dedup_key x = dedup_key
           \<lparr>tc_id = [], function_name = ''Test_Add'', description = ''adds  two numbers'',
            input_data = [], expected_output = [], category = Negative,
            test_code = ''/* table */''\<rparr>)
     (accumulate []
     [[\<lparr>tc_id = [], function_name = ''test_add'', description = ''Adds two numbers'',
        input_data = ''1, 2'', expected_output = ''3'', category = Positive,
        test_code = ''TEST_ASSERT_EQUAL(3, add(1, 2));''\<rparr>],
      [\<lparr>tc_id = [], function_name = ''Test_Add'', description = ''adds  two numbers'',
        input_data = [], expected_output = [], category = Negative, test_code = ''/* table */''\<rparr>,
       \<lparr>tc_id = [], function_name = ''test_sub'', description = [],
        input_data = [], expected_output = [], category = Positive, test_code = ''/* sub */''\<rparr>]])
   = Some \<lparr>tc_id = [], function_name = ''test_add'', description = ''Adds two numbers'',
        input_data = ''1, 2'', expected_output = ''3'', category = Positive,
        test_code = ''TEST_ASSERT_EQUAL(3, add(1, 2));''\<rparr>"
proof -
  let ?h = "\<lparr>tc_id = [], function_name = ''test_add'', description = ''Adds two numbers'',
        input_data = ''1, 2'', expected_output = ''3'', category = Positive,
        test_code = ''TEST_ASSERT_EQUAL(3, add(1, 2));''\<rparr>"
  let ?l = "\<lparr>tc_id = [], function_name = ''Test_Add'', description = ''adds  two numbers'',
        input_data = [], expected_output = [], category = Negative, test_code = ''/* table */''\<rparr>"
  let ?g = "\<lparr>tc_id = [], function_name = ''test_sub'', description = [],
        input_data = [], expected_output = [], category = Positive, test_code = ''/* sub */''\<rparr>"
  have same: "dedup_key ?l = dedup_key ?h"
    by code_simp
  have final: "accumulate [] [[?h], [?l, ?g]] = [?h, ?g]"
    by code_simp
  have h: "?h \<in> set [?h]" and l: "?l \<in> set [?l, ?g]"
    by simp_all
  from lower_priority_fills_gaps [of _ _ "[?h]" "[?l, ?g]"]
  have "\<forall>h \<in> set [?h]. \<forall>l \<in> set [?l, ?g]. dedup_key l = dedup_key h \<longrightarrow>
      length (filter (\<lambda>x. dedup_key x = dedup_key l) (accumulate [] [[?h], [?l, ?g]])) = 1 \<and>
      find (\<lambda>x. dedup_key x = dedup_key l) (accumulate [] [[?h], [?l, ?g]])
        = find (\<lambda>x. dedup_key x = dedup_key l) [?h]"
    by blast
  with h l same
  have "find (\<lambda>x. dedup_key x = dedup_key ?l) (accumulate [] [[?h], [?l, ?g]])
        = find (\<lambda>x. dedup_key x = dedup_key ?l) [?h]"
    by blast
  with same have "find (\<lambda>x. dedup_key x = dedup_key ?l) (accumulate [] [[?h], [?l, ?g]]) = Some ?h"
    by simp
  with same final show ?thesis
    by (intro conjI)
qed

lemma remdups_snoc: "remdups (ys @ [x]) = remdups (filter (\<lambda>y. y \<noteq> x) ys) @ [x]"
  by (induction ys) auto

lemma keep_first_Cons:
  "rev (remdups (rev (x # xs))) = x # rev (remdups (rev (filter (\<lambda>y. y \<noteq> x) xs)))"
  by (simp add: remdups_snoc rev_filter)

lemma first_seen_eq:
  "first_seen seen ns = seen @ rev (remdups (rev (filter (\<lambda>n. n \<notin> set seen) ns)))"
proof (induction ns arbitrary: seen)
  case Nil
  show ?case by simp
next
  case (Cons n ns)
  show ?case
  proof (cases "n \<in> set seen")
    case True
    with Cons [of seen] show ?thesis by simp
  next
    case False
    have "filter (\<lambda>y. y \<noteq> n) (filter (\<lambda>y. y \<notin> set seen) ns)
            = filter (\<lambda>y. y \<notin> set (seen @ [n])) ns"
      by (induction ns) auto
    with False Cons [of "seen @ [n]"] show ?thesis
      by (simp only: first_seen.simps filter.simps if_False if_True keep_first_Cons
          append_assoc append_Cons append_Nil simp_thms)
  qed
qed

lemma first_seen_order: "first_seen [] ns = rev (remdups (rev ns))"
  by (simp add: first_seen_eq)

text \<open>
  C4. In every bundle the pipeline produces, \<open>total_tests\<close> is the length of the
  list of test cases, and \<open>functions_tested\<close> lists the function names of the test
  cases, each once, in the order of their first occurrence. Both are functions of the
  test cases alone: the scripts and coverage areas handed to the pipeline do not enter
  them.
\<close>

theorem summary_derived:
  assumes "pipeline cfg runner build areas cs = Inr b"
  shows "total_tests (summary b) = length (bundle_test_cases b) \<and>
         functions_tested (summary b)
           = rev (remdups (rev (map function_name (bundle_test_cases b)))) \<and>
         distinct (functions_tested (summary b)) \<and>
         set (functions_tested (summary b)) = function_name ` set (bundle_test_cases b) \<and>
         (\<forall>runner' build' areas' b'.
            pipeline cfg runner' build' areas' cs = Inr b' \<longrightarrow>
              bundle_test_cases b' = bundle_test_cases b \<and>
              total_tests (summary b') = total_tests (summary b) \<and>
              functions_tested (summary b') = functions_tested (summary b))"
proof -
  let ?final = "assign_ids (accumulate [] (map (\<lambda>c. fst (parse cfg c)) (by_priority cs)))"
  have made: "b' = make_bundle runner' build' areas' ?final"
    if "pipeline cfg runner' build' areas' cs = Inr b'" for runner' build' areas' b'
    using that unfolding pipeline_def by (rule reconcile_Inr)
  from made [OF assms] have b: "b = make_bundle runner build areas ?final" .
  then have total: "total_tests (summary b) = length (bundle_test_cases b)"
    by (simp add: make_bundle_def)
  from b have order: "functions_tested (summary b)
           = rev (remdups (rev (map function_name (bundle_test_cases b))))"
    by (simp add: make_bundle_def first_seen_order)
  then have dist: "distinct (functions_tested (summary b))"
    by simp
  from order have names: "set (functions_tested (summary b)) = function_name ` set (bundle_test_cases b)"
    by simp
  have indep: "\<forall>runner' build' areas' b'.
            pipeline cfg runner' build' areas' cs = Inr b' \<longrightarrow>
              bundle_test_cases b' = bundle_test_cases b \<and>
              total_tests (summary b') = total_tests (summary b) \<and>
              functions_tested (summary b') = functions_tested (summary b)"
  proof (intro allI impI)
    fix runner' build' areas' b'
    assume "pipeline cfg runner' build' areas' cs = Inr b'"
    from made [OF this] b
    show "bundle_test_cases b' = bundle_test_cases b \<and>
              total_tests (summary b') = total_tests (summary b) \<and>
              functions_tested (summary b') = functions_tested (summary b)"
      by (simp add: make_bundle_def)
  qed
  from total order dist names indep show ?thesis
    by blast
qed

theorem summary_derived_witness:
  "(case pipeline
           \<lparr>default_category = Positive, infer_name = (\<lambda>body. None),
            placeholder_name = (\<lambda>i. ''test_'' @ String_nat i)\<rparr>
           ''/* runner */'' ''all: test'' []
           [TabularBlock [''Function_Name'', ''TEST_CODE'']
              [[''test_add'', ''TEST_ASSERT(0);''], [''test_div'']],
            StructuredBlock
              [[(''function_name'', ''test_add''), (''test_code'', ''TEST_ASSERT(1);''),
                (''description'', ''small numbers'')],
               [(''function_name'', ''test_mul''), (''test_code'', ''TEST_ASSERT(2);'')],
               [(''function_name'', ''test_add''), (''test_code'', ''TEST_ASSERT(3);''),
                (''description'', ''overflow'')]]] of
      Inl e \<Rightarrow> None
    | Inr b \<Rightarrow>
        Some (total_tests (summary b), length (bundle_test_cases b),
              functions_tested (summary b)))
   = Some (4, 4, [''test_add'', ''test_mul''])"
proof -
  let ?cfg = "\<lparr>default_category = Positive, infer_name = (\<lambda>body. None),
            placeholder_name = (\<lambda>i. ''test_'' @ String_nat i)\<rparr>"
  let ?cs = "[TabularBlock [''Function_Name'', ''TEST_CODE'']
              [[''test_add'', ''TEST_ASSERT(0);''], [''test_div'']],
            StructuredBlock
              [[(''function_name'', ''test_add''), (''test_code'', ''TEST_ASSERT(1);''),
                (''description'', ''small numbers'')],
               [(''function_name'', ''test_mul''), (''test_code'', ''TEST_ASSERT(2);'')],
               [(''function_name'', ''test_add''), (''test_code'', ''TEST_ASSERT(3);''),
                (''description'', ''overflow'')]]]"
  let ?p = "pipeline ?cfg ''/* runner */'' ''all: test'' [] ?cs"
  have names: "(case ?p of Inl e \<Rightarrow> None
                | Inr b \<Rightarrow> Some (map function_name (bundle_test_cases b)))
               = Some [''test_add'', ''test_mul'', ''test_add'', ''test_add'']"
    by code_simp
  then obtain b where b: "?p = Inr b"
    by (cases ?p) simp_all
  with names have cases: "map function_name (bundle_test_cases b)
                            = [''test_add'', ''test_mul'', ''test_add'', ''test_add'']"
    by simp
  then have "length (map function_name (bundle_test_cases b)) = 4"
    by simp
  then have four: "length (bundle_test_cases b) = 4"
    by simp
  from summary_derived [OF b]
  have "total_tests (summary b) = length (bundle_test_cases b)"
    and "functions_tested (summary b)
           = rev (remdups (rev (map function_name (bundle_test_cases b))))"
    by blast+
  with cases four have "total_tests (summary b) = 4"
    and "functions_tested (summary b) = [''test_add'', ''test_mul'']"
    by simp_all
  with b four show ?thesis
    by simp
qed














end
